theory Spec2Isabelle
  imports Main
begin

section \<open>C strings and the libc functions the parser uses\<close>

text \<open>
  A C string is modelled as the list of its bytes before the terminating NUL. Heap
  allocation (\<open>malloc\<close>, \<open>dupString\<close>, \<open>initializeList\<close>) is modelled as always
  succeeding, so the branches of the source that only handle a failed allocation have
  no counterpart here.
\<close>

abbreviation NUL :: char where "NUL \<equiv> CHR 0x00"
abbreviation TAB :: char where "TAB \<equiv> CHR 0x09"
abbreviation LF :: char where "LF \<equiv> CHR 0x0A"
abbreviation CR :: char where "CR \<equiv> CHR 0x0D"

definition CRLF :: string where
  "CRLF = [CR, LF]"

text \<open>The bytes of a buffer seen as a C string: everything before the first NUL.\<close>

definition cstr :: "string \<Rightarrow> string" where
  "cstr buf = takeWhile (\<lambda>c. c \<noteq> NUL) buf"

text \<open>\<open>isspace\<close> in the C locale: space, \<open>\t\<close>, \<open>\n\<close>, \<open>\v\<close>, \<open>\f\<close>, \<open>\r\<close>.\<close>

definition isspace :: "char \<Rightarrow> bool" where
  "isspace c \<longleftrightarrow> c = CHR '' '' \<or> c = TAB \<or> c = LF \<or> c = CHR 0x0B \<or> c = CHR 0x0C \<or> c = CR"

text \<open>\<open>tolower\<close> in the C locale: only \<open>A\<close>..\<open>Z\<close> change.\<close>

definition tolower :: "char \<Rightarrow> char" where
  "tolower c =
     (case map_of (zip ''ABCDEFGHIJKLMNOPQRSTUVWXYZ'' ''abcdefghijklmnopqrstuvwxyz'') c of
        Some l \<Rightarrow> l
      | None \<Rightarrow> c)"

text \<open>\<open>strcasecmp(a, b) == 0\<close>.\<close>

definition strcasecmp0 :: "string \<Rightarrow> string \<Rightarrow> bool" where
  "strcasecmp0 a b \<longleftrightarrow> map tolower a = map tolower b"

text \<open>\<open>strchr(s, c)\<close> as the offset of the first occurrence, \<open>None\<close> for \<open>NULL\<close>.\<close>

fun strchr :: "string \<Rightarrow> char \<Rightarrow> nat option" where
  "strchr [] c = None"
| "strchr (x # xs) c = (if x = c then Some 0 else map_option Suc (strchr xs c))"

text \<open>\<open>strrchr(s, c)\<close>: the suffix starting at the last occurrence.\<close>

fun strrchr :: "string \<Rightarrow> char \<Rightarrow> string option" where
  "strrchr [] c = None"
| "strrchr (x # xs) c =
     (case strrchr xs c of Some r \<Rightarrow> Some r | None \<Rightarrow> if x = c then Some (x # xs) else None)"

text \<open>\<open>strstr(hay, needle) != NULL\<close>.\<close>

fun strstr :: "string \<Rightarrow> string \<Rightarrow> bool" where
  "strstr [] needle = (needle = [])"
| "strstr (x # xs) needle = (take (length needle) (x # xs) = needle \<or> strstr xs needle)"

text \<open>
  \<open>trimWhitespace\<close>: skip leading whitespace; an all-blank string yields the empty
  string; otherwise walk back from the last byte while it is whitespace, never moving
  before the first remaining byte.
\<close>

definition trimWhitespace :: "string \<Rightarrow> string" where
  "trimWhitespace str =
     (case dropWhile isspace str of
        [] \<Rightarrow> []
      | c # cs \<Rightarrow> c # rev (dropWhile isspace (rev cs)))"

section \<open>Data model (VCParser.h)\<close>

datatype VCardErrorCode = OK | INV_FILE | INV_CARD | INV_PROP | INV_DT | WRITE_ERROR | OTHER_ERROR

record Parameter =
  param_name :: string
  param_value :: string

record Property =
  prop_name :: string
  prop_group :: string
  prop_parameters :: "Parameter list"
  prop_values :: "string list"

record DateTime =
  dt_UTC :: bool
  dt_isText :: bool
  dt_date :: string
  dt_time :: string
  dt_text :: string

text \<open>
  The pointer fields of a card may be \<open>NULL\<close>: \<open>fn\<close>, \<open>optionalProperties\<close>,
  \<open>birthday\<close> and \<open>anniversary\<close> are options. The string and list fields of a
  property, parameter or date are dereferenced by \<open>validateCard\<close> and
  \<open>propertyToString\<close> before any \<open>NULL\<close> test, so they are modelled as present.
\<close>

record Card =
  card_fn :: "Property option"
  card_optionalProperties :: "Property list option"
  card_birthday :: "DateTime option"
  card_anniversary :: "DateTime option"

section \<open>Validation (CardWriter.c)\<close>

definition validNames :: "string list" where
  "validNames =
     [''FN'', ''N'', ''NICKNAME'', ''PHOTO'', ''BDAY'', ''ANNIVERSARY'', ''GENDER'',
      ''ADR'', ''TEL'', ''EMAIL'', ''IMPP'', ''LANG'', ''TZ'', ''GEO'', ''TITLE'',
      ''ROLE'', ''LOGO'', ''ORG'', ''MEMBER'', ''RELATED'', ''CATEGORIES'',
      ''NOTE'', ''PRODID'', ''REV'', ''SOUND'', ''UID'', ''CLIENTPIDMAP'', ''URL'']"

definition isValidPropertyName :: "string \<Rightarrow> bool" where
  "isValidPropertyName name \<longleftrightarrow> name \<in> set validNames"

definition validateDateTime :: "DateTime option \<Rightarrow> VCardErrorCode" where
  "validateDateTime d =
     (case d of
        None \<Rightarrow> OK
      | Some dt \<Rightarrow>
          if dt_isText dt then
            (if length (dt_date dt) > 0 \<or> length (dt_time dt) > 0 \<or> dt_UTC dt then INV_DT
             else if length (dt_text dt) = 0 then INV_DT
             else OK)
          else
            (if length (dt_text dt) > 0 then INV_DT
             else if length (dt_date dt) = 0 \<and> length (dt_time dt) = 0 then INV_DT
             else if length (dt_date dt) > 0 \<and> length (dt_date dt) \<noteq> 8 then INV_DT
             else if length (dt_time dt) > 0 \<and> length (dt_time dt) \<noteq> 6 then INV_DT
             else OK))"

text \<open>The loop over the parameters of \<open>validateProperty\<close>.\<close>

fun validateParams :: "Parameter list \<Rightarrow> bool" where
  "validateParams [] = True"
| "validateParams (p # ps) =
     (if length (param_name p) = 0 \<or> length (param_value p) = 0 then False
      else validateParams ps)"

definition validateProperty :: "Property \<Rightarrow> bool \<Rightarrow> VCardErrorCode" where
  "validateProperty prop isOptional =
     (if length (prop_name prop) = 0 then INV_PROP
      else if isOptional \<and> prop_name prop = ''VERSION'' then INV_CARD
      else if \<not> isValidPropertyName (prop_name prop) then INV_PROP
      else if \<not> validateParams (prop_parameters prop) then INV_PROP
      else if length (prop_values prop) = 0 then INV_PROP
      else if prop_name prop = ''N'' \<and> length (prop_values prop) \<noteq> 5 then INV_PROP
      else OK)"

text \<open>
  The loop over the optional properties of \<open>validateCard\<close>, with the flag \<open>hasN\<close>.
  \<open>None\<close> means the loop ran to the end.
\<close>

fun validateOptional :: "bool \<Rightarrow> Property list \<Rightarrow> VCardErrorCode option" where
  "validateOptional hasN [] = None"
| "validateOptional hasN (prop # props) =
     (if prop_name prop = ''BDAY'' \<or> prop_name prop = ''ANNIVERSARY'' then Some INV_DT
      else if validateProperty prop True \<noteq> OK then Some (validateProperty prop True)
      else if prop_name prop = ''N'' then
        (if hasN then Some INV_PROP else validateOptional True props)
      else validateOptional hasN props)"

definition validateCard :: "Card option \<Rightarrow> VCardErrorCode" where
  "validateCard obj =
     (case obj of
        None \<Rightarrow> INV_CARD
      | Some c \<Rightarrow>
          (case card_fn c of
             None \<Rightarrow> INV_CARD
           | Some fnp \<Rightarrow>
               if validateProperty fnp False \<noteq> OK then validateProperty fnp False
               else (case card_optionalProperties c of
                  None \<Rightarrow> INV_CARD
                | Some props \<Rightarrow>
                    (case validateOptional False props of
                       Some e \<Rightarrow> e
                     | None \<Rightarrow>
                         if validateDateTime (card_birthday c) \<noteq> OK
                         then validateDateTime (card_birthday c)
                         else if validateDateTime (card_anniversary c) \<noteq> OK
                         then validateDateTime (card_anniversary c)
                         else OK))))"

section \<open>Serialisation (VCParser.c, CardWriter.c)\<close>

definition isCompoundProperty :: "string \<Rightarrow> bool" where
  "isCompoundProperty name \<longleftrightarrow> strcasecmp0 name ''N'' \<or> strcasecmp0 name ''ADR''"

text \<open>
  \<open>propertyToString\<close> writes into a buffer of \<open>bufSize\<close> bytes computed up front and
  returns \<open>NULL\<close> when a write would reach its end. The buffer is the string built so
  far; \<open>pos\<close> is its length.
\<close>

definition propBufSize :: "Property \<Rightarrow> nat" where
  "propBufSize property =
     (length (prop_name property) + 2
      + (if length (prop_group property) > 0 then length (prop_group property) + 1 else 0)
      + sum_list (map (\<lambda>p. length (param_name p) + length (param_value p) + 3)
          (prop_parameters property))
      + sum_list (map (\<lambda>v. length v + 1) (prop_values property))) * 2 + 1"

definition needsQuotes :: "string \<Rightarrow> bool" where
  "needsQuotes v \<longleftrightarrow> strchr v (CHR '','') \<noteq> None \<or> strchr v (CHR '';'') \<noteq> None"

text \<open>What one \<open>snprintf\<close> of the parameter loop formats.\<close>

definition paramText :: "Parameter \<Rightarrow> string" where
  "paramText p =
     (if needsQuotes (param_value p) \<and> strchr (param_value p) (CHR 0x22) = None
      then '';'' @ param_name p @ ''='' @ [CHR 0x22] @ param_value p @ [CHR 0x22]
      else '';'' @ param_name p @ ''='' @ param_value p)"

fun appendParams :: "nat \<Rightarrow> string \<Rightarrow> Parameter list \<Rightarrow> string option" where
  "appendParams bufSize str [] = Some str"
| "appendParams bufSize str (p # ps) =
     (if length (str @ paramText p) \<ge> bufSize then None
      else appendParams bufSize (str @ paramText p) ps)"

fun appendValues :: "nat \<Rightarrow> char \<Rightarrow> bool \<Rightarrow> string \<Rightarrow> string list \<Rightarrow> string option" where
  "appendValues bufSize delimiter isFirst str [] = Some str"
| "appendValues bufSize delimiter isFirst str (v # vs) =
     (if \<not> isFirst \<and> length str + 1 \<ge> bufSize then None
      else if length (if isFirst then str else str @ [delimiter]) + length v \<ge> bufSize then None
      else appendValues bufSize delimiter False ((if isFirst then str else str @ [delimiter]) @ v) vs)"

definition propertyToString :: "Property \<Rightarrow> string option" where
  "propertyToString property =
     (let bufSize = propBufSize property;
          str0 = (if length (prop_group property) > 0 then prop_group property @ ''.'' else [])
      in if length (prop_group property) > 0 \<and> length str0 \<ge> bufSize then None
         else if length (str0 @ prop_name property) \<ge> bufSize then None
         else (case appendParams bufSize (str0 @ prop_name property) (prop_parameters property) of
                 None \<Rightarrow> None
               | Some str \<Rightarrow>
                   if length str + 1 \<ge> bufSize then None
                   else appendValues bufSize
                          (if isCompoundProperty (prop_name property) then CHR '';'' else CHR '','')
                          True (str @ '':'') (prop_values property)))"

definition parameterToString :: "Parameter \<Rightarrow> string option" where
  "parameterToString parameter = Some (param_name parameter @ ''='' @ param_value parameter)"

definition valueToString :: "string \<Rightarrow> string option" where
  "valueToString val = Some val"

definition dateToString :: "DateTime \<Rightarrow> string" where
  "dateToString dt =
     (if dt_isText dt then dt_text dt
      else dt_date dt @ dt_time dt @ (if dt_UTC dt then '' UTC'' else []))"

text \<open>
  \<open>listToString\<close>: the list is its elements together with its \<open>printData\<close> callback;
  \<open>isParameterList\<close> stands for the test \<open>list->printData == parameterToString\<close>.
  An element whose \<open>printData\<close> is \<open>NULL\<close> is skipped, but still clears \<open>first\<close>.
\<close>

fun listToString_loop :: "bool \<Rightarrow> bool \<Rightarrow> string \<Rightarrow> string option list \<Rightarrow> string" where
  "listToString_loop isParameterList first result [] = result"
| "listToString_loop isParameterList first result (None # rest) =
     listToString_loop isParameterList False result rest"
| "listToString_loop isParameterList first result (Some str # rest) =
     listToString_loop isParameterList False
       (result
        @ (if first then []
           else if isParameterList then '';''
           else if strstr str ''ext='' then '';'' else '','')
        @ str) rest"

definition listToString :: "bool \<Rightarrow> ('a \<Rightarrow> string option) \<Rightarrow> 'a list option \<Rightarrow> string" where
  "listToString isParameterList printData list =
     (case list of
        None \<Rightarrow> []
      | Some elems \<Rightarrow>
          if length elems = 0 then []
          else listToString_loop isParameterList True [] (map printData elems))"

text \<open>
  \<open>writeCard\<close>. The file that results is returned with the error code: \<open>None\<close> when
  no file was opened, otherwise the bytes written before the function returned.
  \<open>canOpen\<close> says whether \<open>fopen(fileName, "w")\<close> succeeds; an opened stream is taken
  to accept every \<open>fprintf\<close>.
\<close>

fun writeProperties :: "string \<Rightarrow> Property list \<Rightarrow> string + string" where
  "writeProperties out [] = Inr out"
| "writeProperties out (prop # props) =
     (case propertyToString prop of
        None \<Rightarrow> Inl out
      | Some propStr \<Rightarrow> writeProperties (out @ propStr @ CRLF) props)"

text \<open>The block that writes \<open>BDAY\<close>, and again \<open>ANNIVERSARY\<close>, with its line.\<close>

definition writeDate :: "string \<Rightarrow> DateTime \<Rightarrow> string" where
  "writeDate label dt =
     (if dt_isText dt then label @ '';VALUE=text:'' @ dt_text dt @ CRLF
      else if length (dt_date dt) = 0 \<and> length (dt_time dt) > 0
      then label @ '':T'' @ dt_time dt @ CRLF
      else label @ '':'' @ dateToString dt @ CRLF)"

definition writeCard :: "string option \<Rightarrow> Card option \<Rightarrow> bool \<Rightarrow> VCardErrorCode \<times> string option" where
  "writeCard fileName obj canOpen =
     (case fileName of
        None \<Rightarrow> (WRITE_ERROR, None)
      | Some _ \<Rightarrow>
     (case obj of
        None \<Rightarrow> (WRITE_ERROR, None)
      | Some c \<Rightarrow>
          if \<not> canOpen then (WRITE_ERROR, None)
          else
            let out0 = ''BEGIN:VCARD'' @ CRLF @ ''VERSION:4.0'' @ CRLF in
            (case (case card_fn c of
                     None \<Rightarrow> Some out0
                   | Some fnp \<Rightarrow> map_option (\<lambda>fnStr. out0 @ fnStr @ CRLF) (propertyToString fnp)) of
               None \<Rightarrow> (WRITE_ERROR, Some out0)
             | Some out1 \<Rightarrow>
                 (case writeProperties out1
                         (case card_optionalProperties c of None \<Rightarrow> [] | Some props \<Rightarrow> props) of
                    Inl out2 \<Rightarrow> (WRITE_ERROR, Some out2)
                  | Inr out2 \<Rightarrow>
                      (OK, Some (out2
                         @ (case card_birthday c of None \<Rightarrow> [] | Some dt \<Rightarrow> writeDate ''BDAY'' dt)
                         @ (case card_anniversary c of None \<Rightarrow> [] | Some dt \<Rightarrow> writeDate ''ANNIVERSARY'' dt)
                         @ ''END:VCARD'' @ CRLF))))))"

section \<open>The line reader (VCParser.c)\<close>

text \<open>
  An open input stream is modelled by the bytes not yet read. \<open>fgets(buf, n, file)\<close>
  returns \<open>NULL\<close> at end of input; otherwise it reads up to and including the next
  line feed, at most \<open>n - 1\<close> bytes, and the result is the bytes read and the rest of
  the stream. The buffer is then used as a C string (\<open>cstr\<close>).
\<close>

definition fgets :: "nat \<Rightarrow> string \<Rightarrow> (string \<times> string) option" where
  "fgets n file =
     (if file = [] then None
      else let k = (case strchr file LF of None \<Rightarrow> length file | Some i \<Rightarrow> i + 1);
               m = min k (n - 1)
           in Some (take m file, drop m file))"

definition hasValidLineEnding :: "string \<Rightarrow> bool" where
  "hasValidLineEnding line \<longleftrightarrow>
     length line \<ge> 2 \<and> line ! (length line - 2) = CR \<and> line ! (length line - 1) = LF"

definition isContinuationLine :: "string \<Rightarrow> bool" where
  "isContinuationLine line \<longleftrightarrow>
     (case line of [] \<Rightarrow> False | c # _ \<Rightarrow> c = CHR '' '' \<or> c = TAB)"

lemma strchr_less: "strchr s c = Some i \<Longrightarrow> i < length s"
  by (induction s arbitrary: i) (auto split: if_splits)

lemma fgets_shorter:
  "2 \<le> n \<Longrightarrow> fgets n file = Some (raw, file') \<Longrightarrow> length file' < length file"
  by (cases "file") (auto simp: fgets_def Let_def min_def split: if_splits option.splits)

text \<open>
  The look-ahead loop of \<open>readFoldedLine\<close>; \<open>nextLine\<close> has 1000 bytes. The result is
  the unfolded line with the position of the stream after it, or \<open>None\<close> where the
  source returns \<open>NULL\<close>. When the next physical line is not a continuation, or does
  not fit, the stream is put back where it was (\<open>fseek\<close>).
\<close>

function foldLoop :: "nat \<Rightarrow> string \<Rightarrow> string \<Rightarrow> (string \<times> string) option" where
  "foldLoop bufSize buffer file =
     (case fgets 1000 file of
        None \<Rightarrow> Some (buffer, file)
      | Some (raw, file') \<Rightarrow>
          if \<not> isContinuationLine (cstr raw) then Some (buffer, file)
          else if \<not> hasValidLineEnding (cstr raw) then None
          else if length (dropWhile isspace (tl (take (length (cstr raw) - 2) (cstr raw))))
                    < bufSize - length buffer - 1
          then foldLoop bufSize
                 (buffer @ dropWhile isspace (tl (take (length (cstr raw) - 2) (cstr raw)))) file'
          else Some (buffer, file))"
  by pat_completeness auto
termination
  by (relation "measure (\<lambda>(bufSize, buffer, file). length file)")
     (auto dest: fgets_shorter [rotated])

declare foldLoop.simps [simp del]

definition readFoldedLine :: "nat \<Rightarrow> string \<Rightarrow> (string \<times> string) option" where
  "readFoldedLine bufSize file =
     (if bufSize = 0 then None
      else (case fgets bufSize file of
              None \<Rightarrow> None
            | Some (raw, file') \<Rightarrow>
                if \<not> hasValidLineEnding (cstr raw) then None
                else foldLoop bufSize (take (length (cstr raw) - 2) (cstr raw)) file'))"

section \<open>The property builder (VCParser.c)\<close>

text \<open>
  One call of \<open>strtok\<close>: skip the delimiters in front, fail when nothing is left,
  otherwise cut the token at the next delimiter. The second component is where the
  next call resumes.
\<close>

definition strtok :: "string \<Rightarrow> char \<Rightarrow> (string \<times> string) option" where
  "strtok s d =
     (case dropWhile (\<lambda>c. c = d) s of
        [] \<Rightarrow> None
      | t # ts \<Rightarrow> Some (takeWhile (\<lambda>c. c \<noteq> d) (t # ts), drop 1 (dropWhile (\<lambda>c. c \<noteq> d) (t # ts))))"

lemma strtok_shorter: "strtok s d = Some (tok, rest) \<Longrightarrow> length rest < length s"
proof -
  assume a: "strtok s d = Some (tok, rest)"
  then obtain t ts where t: "dropWhile (\<lambda>c. c = d) s = t # ts"
    by (auto simp: strtok_def split: list.splits)
  with a have "rest = drop 1 (dropWhile (\<lambda>c. c \<noteq> d) (t # ts))"
    by (simp add: strtok_def)
  then have "length rest \<le> length ts"
    using length_dropWhile_le [of "\<lambda>c. c \<noteq> d" ts] by (simp split: if_splits)
  moreover have "length (t # ts) \<le> length s"
    using length_dropWhile_le [of "\<lambda>c. c = d" s] t by simp
  ultimately show ?thesis by simp
qed

text \<open>
  The loop of \<open>addValuesToList\<close> for the delimiter \<open>;\<close>: \<open>start\<close> is the text not yet
  split. The loop stops as soon as \<open>start\<close> is at the end of the string.
\<close>

function addValues_loop :: "char \<Rightarrow> string \<Rightarrow> string list" where
  "addValues_loop delimiter start =
     (if start = [] then []
      else trimWhitespace (takeWhile (\<lambda>c. c \<noteq> delimiter) start)
           # (case dropWhile (\<lambda>c. c \<noteq> delimiter) start of
                [] \<Rightarrow> []
              | _ # rest \<Rightarrow> addValues_loop delimiter rest))"
  by pat_completeness auto
termination
proof (relation "measure (\<lambda>(delimiter, start). length start)")
  show "wf (measure (\<lambda>(delimiter, start). length start))"
    by simp
next
  fix delimiter :: char and start :: string and x21 :: char and rest :: string
  assume "dropWhile (\<lambda>c. c \<noteq> delimiter) start = x21 # rest"
  then have "length rest < length start"
    using length_dropWhile_le [of "\<lambda>c. c \<noteq> delimiter" start] by simp
  then show "((delimiter, rest), (delimiter, start)) \<in> measure (\<lambda>(delimiter, start). length start)"
    by simp
qed

declare addValues_loop.simps [simp del]

definition addValuesToList :: "string \<Rightarrow> char \<Rightarrow> string list" where
  "addValuesToList val delimiter =
     (if delimiter = CHR '';'' then addValues_loop delimiter val else [val])"

text \<open>
  The loop of \<open>parseParameters\<close> over the remaining tokens. \<open>None\<close> is the \<open>NULL\<close>
  result: a token without \<open>=\<close>, or with an empty name or value after trimming.
\<close>

function parseParameters_loop :: "string \<Rightarrow> Parameter list \<Rightarrow> Parameter list option" where
  "parseParameters_loop saved params =
     (case strtok saved (CHR '';'') of
        None \<Rightarrow> Some params
      | Some (paramStr, saved') \<Rightarrow>
          (case strchr paramStr (CHR ''='') of
             None \<Rightarrow> None
           | Some equals \<Rightarrow>
               if length (trimWhitespace (take equals paramStr)) = 0
                  \<or> length (trimWhitespace (drop (Suc equals) paramStr)) = 0
               then None
               else parseParameters_loop saved'
                      (params @ [\<lparr>param_name = trimWhitespace (take equals paramStr),
                                  param_value = trimWhitespace (drop (Suc equals) paramStr)\<rparr>])))"
  by pat_completeness auto
termination
  by (relation "measure (\<lambda>(saved, params). length saved)") (auto dest: strtok_shorter)

declare parseParameters_loop.simps [simp del]

definition parseParameters :: "string \<Rightarrow> (string \<times> Parameter list) option" where
  "parseParameters propNameStr =
     (case strtok propNameStr (CHR '';'') of
        None \<Rightarrow> None
      | Some (baseName, saved) \<Rightarrow> map_option (Pair baseName) (parseParameters_loop saved []))"

text \<open>
  The loop of \<open>validateParameters\<close>; \<open>s\<close> is the text after the current semicolon.
\<close>

function validateParameters_loop :: "string \<Rightarrow> bool" where
  "validateParameters_loop s =
     (if (case strchr s (CHR ''='') of
            None \<Rightarrow> False
          | Some equals \<Rightarrow>
              (case strchr s (CHR '';'') of None \<Rightarrow> True | Some nextSemicolon \<Rightarrow> equals < nextSemicolon))
      then (case strchr s (CHR ''='') of
              None \<Rightarrow> False
            | Some equals \<Rightarrow>
                (case dropWhile isspace (drop (Suc equals) s) of
                   [] \<Rightarrow> False
                 | c # _ \<Rightarrow>
                     if c = CHR '';'' then False
                     else (case strchr s (CHR '';'') of
                             None \<Rightarrow> True
                           | Some nextSemicolon \<Rightarrow> validateParameters_loop (drop (Suc nextSemicolon) s))))
      else if (case strchr s (CHR ''='') of
                 None \<Rightarrow> True
               | Some equals \<Rightarrow>
                   (case strchr s (CHR '';'') of None \<Rightarrow> False | Some nextSemicolon \<Rightarrow> equals > nextSemicolon))
      then False
      else (case strchr s (CHR '';'') of
              None \<Rightarrow> True
            | Some nextSemicolon \<Rightarrow> validateParameters_loop (drop (Suc nextSemicolon) s)))"
  by pat_completeness auto
termination
  by (relation "measure length") (auto dest: strchr_less)

declare validateParameters_loop.simps [simp del]

definition validateParameters :: "string \<Rightarrow> bool" where
  "validateParameters name =
     (case strchr name (CHR '';'') of
        None \<Rightarrow> True
      | Some semicolon \<Rightarrow> validateParameters_loop (drop (Suc semicolon) name))"

definition createProperty :: "string \<Rightarrow> string \<Rightarrow> Property option" where
  "createProperty name val =
     (if \<not> validateParameters name then None
      else (case (case strchr name (CHR ''.'') of
                    Some dot \<Rightarrow> (take dot name, parseParameters (drop (Suc dot) name))
                  | None \<Rightarrow> ([], parseParameters name)) of
              (grp, None) \<Rightarrow> None
            | (grp, Some (baseName, params)) \<Rightarrow>
                Some \<lparr>prop_name = baseName, prop_group = grp, prop_parameters = params,
                      prop_values = (if isCompoundProperty baseName
                                     then addValuesToList val (CHR '';'') else [val])\<rparr>))"

section \<open>The date builder (VCParser.c)\<close>

definition createDateTime :: "string \<Rightarrow> bool \<Rightarrow> DateTime" where
  "createDateTime val isText =
     (if isText
      then \<lparr>dt_UTC = False, dt_isText = isText, dt_date = [], dt_time = [], dt_text = val\<rparr>
      else if (case val of [] \<Rightarrow> False | c # _ \<Rightarrow> c = CHR ''T'')
      then \<lparr>dt_UTC = False, dt_isText = isText, dt_date = [], dt_time = tl val, dt_text = []\<rparr>
      else (case strchr val (CHR ''T'') of
              Some tPos \<Rightarrow>
                \<lparr>dt_UTC = False, dt_isText = isText, dt_date = take tPos val,
                 dt_time = drop (Suc tPos) val, dt_text = []\<rparr>
            | None \<Rightarrow>
                \<lparr>dt_UTC = False, dt_isText = isText, dt_date = val, dt_time = [], dt_text = []\<rparr>))"

section \<open>The card builder (VCParser.c)\<close>

text \<open>
  The card under construction together with the flags \<open>foundFN\<close>, \<open>foundVersion\<close> and
  \<open>validVersion\<close> that \<open>createCard\<close> passes to \<open>handleSpecialProperty\<close> by reference.
\<close>

record ParseState =
  newCard :: Card
  foundFN :: bool
  foundVersion :: bool
  validVersion :: bool

text \<open>The property name cut at its first semicolon.\<close>

definition basePropName :: "string \<Rightarrow> string" where
  "basePropName propName = takeWhile (\<lambda>c. c \<noteq> CHR '';'') propName"

text \<open>The search for a \<open>VALUE=text\<close> parameter, names and values compared without case.\<close>

definition isTextValue :: "Parameter list \<Rightarrow> bool" where
  "isTextValue params \<longleftrightarrow>
     list_ex (\<lambda>param. strcasecmp0 (param_name param) ''VALUE''
                      \<and> strcasecmp0 (param_value param) ''text'') params"

definition handleSpecialProperty ::
    "ParseState \<Rightarrow> string \<Rightarrow> string \<Rightarrow> VCardErrorCode \<times> ParseState" where
  "handleSpecialProperty st propName propValue =
     (if strcasecmp0 (basePropName propName) ''VERSION'' then
        (if foundVersion st then (INV_CARD, st)
         else (OK, st\<lparr>foundVersion := True,
                       validVersion := (if propValue = ''4.0'' then True else validVersion st)\<rparr>))
      else if strcasecmp0 (basePropName propName) ''FN'' then
        (case card_fn (newCard st) of
           Some _ \<Rightarrow> (OK, st\<lparr>foundFN := True\<rparr>)
         | None \<Rightarrow>
             (case createProperty propName propValue of
                None \<Rightarrow> (OTHER_ERROR, st\<lparr>foundFN := True\<rparr>)
              | Some p \<Rightarrow> (OK, st\<lparr>foundFN := True, newCard := (newCard st)\<lparr>card_fn := Some p\<rparr>\<rparr>)))
      else if strcasecmp0 (basePropName propName) ''ANNIVERSARY'' then
        (if card_anniversary (newCard st) \<noteq> None then (INV_CARD, st)
         else (case createProperty propName propValue of
                 None \<Rightarrow> (OTHER_ERROR, st)
               | Some tempProp \<Rightarrow>
                   (OK, st\<lparr>newCard := (newCard st)\<lparr>card_anniversary :=
                          Some (createDateTime propValue (isTextValue (prop_parameters tempProp)))\<rparr>\<rparr>)))
      else if strcasecmp0 (basePropName propName) ''BDAY'' then
        (if card_birthday (newCard st) \<noteq> None then (INV_CARD, st)
         else (case createProperty propName propValue of
                 None \<Rightarrow> (OTHER_ERROR, st)
               | Some tempProp \<Rightarrow>
                   (OK, st\<lparr>newCard := (newCard st)\<lparr>card_birthday :=
                          Some (createDateTime propValue (isTextValue (prop_parameters tempProp)))\<rparr>\<rparr>)))
      else (OK, st))"

definition validatePropertyLine :: "string \<Rightarrow> VCardErrorCode + (string \<times> string)" where
  "validatePropertyLine line =
     (case strchr line (CHR '':'') of
        None \<Rightarrow> Inl INV_PROP
      | Some colon \<Rightarrow>
          if length (trimWhitespace (take colon line)) = 0
             \<or> length (trimWhitespace (drop (Suc colon) line)) = 0
          then Inl INV_PROP
          else Inr (trimWhitespace (take colon line), trimWhitespace (drop (Suc colon) line)))"

text \<open>
  The body of the second loop of \<open>createCard\<close> for one logical line that is not
  \<open>END:VCARD\<close>: \<open>Inl\<close> is the error the function returns with, \<open>Inr\<close> the state the
  loop goes on with.
\<close>

definition processLine :: "ParseState \<Rightarrow> string \<Rightarrow> VCardErrorCode + ParseState" where
  "processLine st trimmed =
     (case validatePropertyLine trimmed of
        Inl err \<Rightarrow> Inl err
      | Inr (propName, propValue) \<Rightarrow>
          (case createProperty propName propValue of
             None \<Rightarrow> if strchr propName (CHR '';'') \<noteq> None then Inl INV_PROP else Inl OTHER_ERROR
           | Some tempProp \<Rightarrow>
               if prop_name tempProp = [] then Inl INV_PROP
               else (case handleSpecialProperty st propName propValue of
                       (err, st') \<Rightarrow>
                         if err \<noteq> OK then Inl err
                         else if \<not> strcasecmp0 (basePropName propName) ''VERSION''
                                 \<and> \<not> strcasecmp0 (basePropName propName) ''FN''
                                 \<and> \<not> strcasecmp0 (basePropName propName) ''BDAY''
                                 \<and> \<not> strcasecmp0 (basePropName propName) ''ANNIVERSARY''
                         then (case createProperty propName propValue of
                                 None \<Rightarrow> Inl OTHER_ERROR
                               | Some prop \<Rightarrow>
                                   Inr (st'\<lparr>newCard := (newCard st')\<lparr>card_optionalProperties :=
                                          map_option (\<lambda>props. props @ [prop])
                                            (card_optionalProperties (newCard st'))\<rparr>\<rparr>))
                         else Inr st')))"

lemma foldLoop_le: "foldLoop bufSize buffer file = Some (line, file') \<Longrightarrow> length file' \<le> length file"
proof (induction bufSize buffer "file" arbitrary: line file' rule: foldLoop.induct)
  case (1 bufSize buffer f)
  show ?case
  proof (cases "fgets 1000 f")
    case None
    with "1.prems" show ?thesis
      by (subst (asm) foldLoop.simps) simp
  next
    case (Some a)
    obtain raw f1 where a: "a = (raw, f1)"
      by (cases a)
    have lt: "length f1 < length f"
      using Some a fgets_shorter [of 1000 f raw f1] by simp
    show ?thesis
    proof (cases "isContinuationLine (cstr raw) \<and> hasValidLineEnding (cstr raw)
        \<and> length (dropWhile isspace (tl (take (length (cstr raw) - 2) (cstr raw))))
            < bufSize - length buffer - 1")
      case True
      with "1.prems" Some a have
        "foldLoop bufSize (buffer @ dropWhile isspace (tl (take (length (cstr raw) - 2) (cstr raw)))) f1
           = Some (line, file')"
        by (subst (asm) foldLoop.simps) simp
      with "1.IH" [OF Some a [symmetric]] True have "length file' \<le> length f1"
        by simp
      with lt show ?thesis by simp
    next
      case False
      with "1.prems" Some a show ?thesis
        by (subst (asm) foldLoop.simps) (auto split: if_splits)
    qed
  qed
qed

lemma readFoldedLine_shorter:
  "2 \<le> bufSize \<Longrightarrow> readFoldedLine bufSize file = Some (line, file') \<Longrightarrow> length file' < length file"
  by (auto simp: readFoldedLine_def split: if_splits option.splits
           dest!: foldLoop_le fgets_shorter [rotated])

text \<open>
  The first loop of \<open>createCard\<close>: read logical lines until one is \<open>BEGIN:VCARD\<close>. The
  result is the position of the stream after that line, \<open>None\<close> when the reader gave
  up first.
\<close>

function seekBegin :: "string \<Rightarrow> string option" where
  "seekBegin file =
     (case readFoldedLine 1000 file of
        None \<Rightarrow> None
      | Some (line, file') \<Rightarrow>
          if strcasecmp0 (trimWhitespace line) ''BEGIN:VCARD'' then Some file'
          else seekBegin file')"
  by pat_completeness auto
termination
  by (relation "measure length") (auto dest: readFoldedLine_shorter [rotated])

declare seekBegin.simps [simp del]

text \<open>
  The second loop of \<open>createCard\<close>. \<open>Inl\<close> is an error returned from inside the loop;
  \<open>Inr\<close> is the state when the loop is left, with the flag \<open>foundEnd\<close>.
\<close>

function processBody :: "ParseState \<Rightarrow> string \<Rightarrow> VCardErrorCode + (ParseState \<times> bool)" where
  "processBody st file =
     (case readFoldedLine 1000 file of
        None \<Rightarrow> Inr (st, False)
      | Some (line, file') \<Rightarrow>
          if line = [] then Inl INV_CARD
          else if strcasecmp0 (trimWhitespace line) ''END:VCARD'' then Inr (st, True)
          else (case processLine st (trimWhitespace line) of
                  Inl err \<Rightarrow> Inl err
                | Inr st' \<Rightarrow> processBody st' file'))"
  by pat_completeness auto
termination
  by (relation "measure (\<lambda>(st, file). length file)") (auto dest: readFoldedLine_shorter [rotated])

declare processBody.simps [simp del]

definition isValidExtension :: "string \<Rightarrow> bool" where
  "isValidExtension fileName \<longleftrightarrow>
     (case strrchr fileName (CHR ''.'') of
        None \<Rightarrow> False
      | Some dot \<Rightarrow> strcasecmp0 dot ''.vcf'' \<or> strcasecmp0 dot ''.vcard'')"

text \<open>The card and the flags as \<open>createCard\<close> initialises them.\<close>

definition initialState :: ParseState where
  "initialState =
     \<lparr>newCard = \<lparr>card_fn = None, card_optionalProperties = Some [],
                  card_birthday = None, card_anniversary = None\<rparr>,
      foundFN = False, foundVersion = False, validVersion = False\<rparr>"

text \<open>What \<open>createCard\<close> does once the file is open; the argument is the file's content.\<close>

definition parseCard :: "string \<Rightarrow> VCardErrorCode \<times> Card option" where
  "parseCard content =
     (case seekBegin content of
        None \<Rightarrow> (INV_CARD, None)
      | Some file \<Rightarrow>
          (case processBody initialState file of
             Inl err \<Rightarrow> (err, None)
           | Inr (st, foundEnd) \<Rightarrow>
               if \<not> foundEnd \<or> \<not> foundFN st \<or> \<not> foundVersion st \<or> \<not> validVersion st
               then (INV_CARD, None)
               else (OK, Some (newCard st))))"

text \<open>
  \<open>createCard\<close>. \<open>fs\<close> maps the name of each file that \<open>fopen(fileName, "r")\<close> can
  open to its content. The second component is the card stored through \<open>obj\<close>.
\<close>

definition createCard :: "string option \<Rightarrow> (string \<Rightarrow> string option) \<Rightarrow> VCardErrorCode \<times> Card option" where
  "createCard fileName fs =
     (case fileName of
        None \<Rightarrow> (INV_FILE, None)
      | Some name \<Rightarrow>
          if name = [] then (INV_FILE, None)
          else if \<not> isValidExtension name then (INV_FILE, None)
          else (case fs name of
                  None \<Rightarrow> (INV_FILE, None)
                | Some content \<Rightarrow> parseCard content))"

section \<open>Concrete inputs\<close>

definition johnDoe :: string where
  "johnDoe = ''BEGIN:VCARD'' @ CRLF @ ''VERSION:4.0'' @ CRLF @ ''FN:John Doe'' @ CRLF
     @ ''N:Doe;John;;;'' @ CRLF @ ''END:VCARD'' @ CRLF"

definition lowerTel :: string where
  "lowerTel = ''BEGIN:VCARD'' @ CRLF @ ''VERSION:4.0'' @ CRLF @ ''FN:John Doe'' @ CRLF
     @ ''tel:555-1234'' @ CRLF @ ''END:VCARD'' @ CRLF"

definition lowerFn :: string where
  "lowerFn = ''begin:vcard'' @ CRLF @ ''version:4.0'' @ CRLF @ ''fn:John Doe'' @ CRLF
     @ ''end:vcard'' @ CRLF"

section \<open>Compound values: the trailing field\<close>

text \<open>
  Claim C2. The claim says that the card \<open>BEGIN:VCARD\<close>, \<open>VERSION:4.0\<close>,
  \<open>FN:John Doe\<close>, \<open>N:Doe;John;;;\<close>, \<open>END:VCARD\<close> parses to an \<open>N\<close> property with
  the five values Doe, John and three empty strings, and that this card passes
  \<open>validateCard\<close>. On the code the loop of \<open>addValuesToList\<close> ends as soon as the
  text after a semicolon is empty, so the field after the last semicolon is not stored:
  the property has four values and \<open>validateCard\<close> answers \<open>INV_PROP\<close>.
\<close>

theorem C2_trailing_empty_field_dropped:
  "createCard (Some ''john.vcf'') [''john.vcf'' \<mapsto> johnDoe]
     = (OK, Some \<lparr>card_fn = Some \<lparr>prop_name = ''FN'', prop_group = [], prop_parameters = [],
                                   prop_values = [''John Doe'']\<rparr>,
                  card_optionalProperties =
                    Some [\<lparr>prop_name = ''N'', prop_group = [], prop_parameters = [],
                           prop_values = [''Doe'', ''John'', [], []]\<rparr>],
                  card_birthday = None, card_anniversary = None\<rparr>)
   \<and> validateCard (snd (createCard (Some ''john.vcf'') [''john.vcf'' \<mapsto> johnDoe])) = INV_PROP
   \<and> addValuesToList ''Doe;John;;;'' (CHR '';'') = [''Doe'', ''John'', [], []]"
  by code_simp

theorem C2_trailing_empty_field_dropped_witness:
  "validateCard (snd (createCard (Some ''john.vcf'') [''john.vcf'' \<mapsto> johnDoe])) \<noteq> OK"
  using C2_trailing_empty_field_dropped [THEN conjunct2, THEN conjunct1] by simp

section \<open>Case of property names\<close>

text \<open>
  Claim C9. \<open>createCard\<close> compares property names without regard to case and stores
  them as written; \<open>validateCard\<close> compares them with \<open>strcmp\<close>. The card with the
  line \<open>tel:555-1234\<close> is accepted by \<open>createCard\<close> with \<open>OK\<close>, the stored name is
  \<open>tel\<close>, and \<open>validateCard\<close> rejects the card with \<open>INV_PROP\<close>. The same happens to
  a card written in lower case throughout: its \<open>fn\<close> line becomes the card's FN
  property under the name \<open>fn\<close>, which is not in the list of valid names.
\<close>

theorem C9_case_mismatch:
  "createCard (Some ''a.vcf'') [''a.vcf'' \<mapsto> lowerTel]
     = (OK, Some \<lparr>card_fn = Some \<lparr>prop_name = ''FN'', prop_group = [], prop_parameters = [],
                                   prop_values = [''John Doe'']\<rparr>,
                  card_optionalProperties =
                    Some [\<lparr>prop_name = ''tel'', prop_group = [], prop_parameters = [],
                           prop_values = [''555-1234'']\<rparr>],
                  card_birthday = None, card_anniversary = None\<rparr>)
   \<and> validateCard (snd (createCard (Some ''a.vcf'') [''a.vcf'' \<mapsto> lowerTel])) = INV_PROP
   \<and> createCard (Some ''a.vcf'') [''a.vcf'' \<mapsto> lowerFn]
     = (OK, Some \<lparr>card_fn = Some \<lparr>prop_name = ''fn'', prop_group = [], prop_parameters = [],
                                   prop_values = [''John Doe'']\<rparr>,
                  card_optionalProperties = Some [],
                  card_birthday = None, card_anniversary = None\<rparr>)
   \<and> validateCard (snd (createCard (Some ''a.vcf'') [''a.vcf'' \<mapsto> lowerFn])) = INV_PROP
   \<and> isValidPropertyName ''TEL'' \<and> \<not> isValidPropertyName ''tel''
   \<and> \<not> isValidPropertyName ''Tel'' \<and> \<not> isValidPropertyName ''fn''"
  by code_simp

theorem C9_case_mismatch_witness:
  "fst (createCard (Some ''a.vcf'') [''a.vcf'' \<mapsto> lowerTel]) = OK
   \<and> validateCard (snd (createCard (Some ''a.vcf'') [''a.vcf'' \<mapsto> lowerTel])) \<noteq> OK"
  using C9_case_mismatch [THEN conjunct1] C9_case_mismatch [THEN conjunct2, THEN conjunct1]
  by simp

section \<open>Basic facts about the string functions\<close>

lemma strchr_None_iff: "strchr s c = None \<longleftrightarrow> c \<notin> set s"
  by (induction s) auto

lemma strchr_append_first:
  "c \<notin> set d \<Longrightarrow> strchr (d @ c # t) c = Some (length d)"
  by (induction d) auto

lemma strcasecmp0_names:
  "strcasecmp0 b ''BDAY'' \<Longrightarrow> \<not> strcasecmp0 b ''VERSION'' \<and> \<not> strcasecmp0 b ''FN'' \<and> \<not> strcasecmp0 b ''ANNIVERSARY''"
  "strcasecmp0 b ''ANNIVERSARY'' \<Longrightarrow> \<not> strcasecmp0 b ''VERSION'' \<and> \<not> strcasecmp0 b ''FN''"
  "strcasecmp0 b ''FN'' \<Longrightarrow> \<not> strcasecmp0 b ''VERSION''"
  by (auto simp: strcasecmp0_def tolower_def)



section \<open>Building a date\<close>

text \<open>
  Claim C7. \<open>createDateTime\<close> with the text hint set stores the raw value in the text
  field, leaves date and time empty and UTC false. Without the hint, a value that
  begins with \<open>T\<close> gives an empty date and, as time, everything after that \<open>T\<close>; any
  other value is split at its first \<open>T\<close> into date and time, and a value without \<open>T\<close>
  is the date, with an empty time. The hint passed by \<open>handleSpecialProperty\<close> for a
  \<open>BDAY\<close> or \<open>ANNIVERSARY\<close> line is whether the property has a parameter whose name is
  \<open>VALUE\<close> and whose value is \<open>text\<close>, both compared without case.
\<close>

theorem C7_createDateTime:
  "createDateTime val True
     = \<lparr>dt_UTC = False, dt_isText = True, dt_date = [], dt_time = [], dt_text = val\<rparr>
   \<and> createDateTime (CHR ''T'' # rest) False
     = \<lparr>dt_UTC = False, dt_isText = False, dt_date = [], dt_time = rest, dt_text = []\<rparr>
   \<and> (CHR ''T'' \<notin> set d \<longrightarrow>
        createDateTime (d @ CHR ''T'' # t) False
          = \<lparr>dt_UTC = False, dt_isText = False, dt_date = d, dt_time = t, dt_text = []\<rparr>)
   \<and> (CHR ''T'' \<notin> set val \<longrightarrow>
        createDateTime val False
          = \<lparr>dt_UTC = False, dt_isText = False, dt_date = val, dt_time = [], dt_text = []\<rparr>)
   \<and> (strcasecmp0 (basePropName propName) ''BDAY'' \<and> card_birthday (newCard st) = None
        \<and> createProperty propName propValue = Some tempProp \<longrightarrow>
        handleSpecialProperty st propName propValue
          = (OK, st\<lparr>newCard := (newCard st)\<lparr>card_birthday := Some (createDateTime propValue
               (list_ex (\<lambda>param. strcasecmp0 (param_name param) ''VALUE''
                                 \<and> strcasecmp0 (param_value param) ''text'')
                  (prop_parameters tempProp)))\<rparr>\<rparr>))
   \<and> (strcasecmp0 (basePropName propName) ''ANNIVERSARY'' \<and> card_anniversary (newCard st) = None
        \<and> createProperty propName propValue = Some tempProp \<longrightarrow>
        handleSpecialProperty st propName propValue
          = (OK, st\<lparr>newCard := (newCard st)\<lparr>card_anniversary := Some (createDateTime propValue
               (list_ex (\<lambda>param. strcasecmp0 (param_name param) ''VALUE''
                                 \<and> strcasecmp0 (param_value param) ''text'')
                  (prop_parameters tempProp)))\<rparr>\<rparr>))"
proof (intro conjI impI)
  show "createDateTime val True
     = \<lparr>dt_UTC = False, dt_isText = True, dt_date = [], dt_time = [], dt_text = val\<rparr>"
    by (simp add: createDateTime_def)
  show "createDateTime (CHR ''T'' # rest) False
     = \<lparr>dt_UTC = False, dt_isText = False, dt_date = [], dt_time = rest, dt_text = []\<rparr>"
    by (simp add: createDateTime_def)
next
  assume d: "CHR ''T'' \<notin> set d"
  show "createDateTime (d @ CHR ''T'' # t) False
          = \<lparr>dt_UTC = False, dt_isText = False, dt_date = d, dt_time = t, dt_text = []\<rparr>"
  proof (cases d)
    case Nil
    then show ?thesis by (simp add: createDateTime_def)
  next
    case (Cons c cs)
    with d have "c \<noteq> CHR ''T''" by auto
    with Cons strchr_append_first [OF d, of t] show ?thesis
      by (simp add: createDateTime_def)
  qed
next
  assume v: "CHR ''T'' \<notin> set val"
  then have "strchr val (CHR ''T'') = None"
    by (simp add: strchr_None_iff)
  with v show "createDateTime val False
          = \<lparr>dt_UTC = False, dt_isText = False, dt_date = val, dt_time = [], dt_text = []\<rparr>"
    by (cases val) (auto simp: createDateTime_def)
next
  assume "strcasecmp0 (basePropName propName) ''BDAY'' \<and> card_birthday (newCard st) = None
        \<and> createProperty propName propValue = Some tempProp"
  then show "handleSpecialProperty st propName propValue
          = (OK, st\<lparr>newCard := (newCard st)\<lparr>card_birthday := Some (createDateTime propValue
               (list_ex (\<lambda>param. strcasecmp0 (param_name param) ''VALUE''
                                 \<and> strcasecmp0 (param_value param) ''text'')
                  (prop_parameters tempProp)))\<rparr>\<rparr>)"
    using strcasecmp0_names(1) [of "basePropName propName"]
    by (simp add: handleSpecialProperty_def isTextValue_def)
next
  assume "strcasecmp0 (basePropName propName) ''ANNIVERSARY'' \<and> card_anniversary (newCard st) = None
        \<and> createProperty propName propValue = Some tempProp"
  then show "handleSpecialProperty st propName propValue
          = (OK, st\<lparr>newCard := (newCard st)\<lparr>card_anniversary := Some (createDateTime propValue
               (list_ex (\<lambda>param. strcasecmp0 (param_name param) ''VALUE''
                                 \<and> strcasecmp0 (param_value param) ''text'')
                  (prop_parameters tempProp)))\<rparr>\<rparr>)"
    using strcasecmp0_names(2) [of "basePropName propName"]
    by (simp add: handleSpecialProperty_def isTextValue_def)
qed

theorem C7_createDateTime_witness:
  "createDateTime ''circa 1990'' True
     = \<lparr>dt_UTC = False, dt_isText = True, dt_date = [], dt_time = [], dt_text = ''circa 1990''\<rparr>
   \<and> createDateTime ''T1430'' False
     = \<lparr>dt_UTC = False, dt_isText = False, dt_date = [], dt_time = ''1430'', dt_text = []\<rparr>
   \<and> createDateTime ''20090808T1430'' False
     = \<lparr>dt_UTC = False, dt_isText = False, dt_date = ''20090808'', dt_time = ''1430'', dt_text = []\<rparr>
   \<and> createDateTime ''circa 1990'' False
     = \<lparr>dt_UTC = False, dt_isText = False, dt_date = ''circa 1990'', dt_time = [], dt_text = []\<rparr>
   \<and> card_birthday (newCard (snd (handleSpecialProperty initialState ''BDAY;VALUE=text'' ''circa 1990'')))
     = Some \<lparr>dt_UTC = False, dt_isText = True, dt_date = [], dt_time = [], dt_text = ''circa 1990''\<rparr>
   \<and> card_anniversary (newCard (snd (handleSpecialProperty initialState ''anniversary'' ''20090808T1430'')))
     = Some \<lparr>dt_UTC = False, dt_isText = False, dt_date = ''20090808'', dt_time = ''1430'', dt_text = []\<rparr>"
proof -
  note inst = C7_createDateTime [of "''circa 1990''" "''1430''" "''20090808''" "''1430''"]
  have b: "strcasecmp0 (basePropName ''BDAY;VALUE=text'') ''BDAY''
           \<and> card_birthday (newCard initialState) = None
           \<and> createProperty ''BDAY;VALUE=text'' ''circa 1990''
               = Some \<lparr>prop_name = ''BDAY'', prop_group = [],
                        prop_parameters = [\<lparr>param_name = ''VALUE'', param_value = ''text''\<rparr>],
                        prop_values = [''circa 1990'']\<rparr>"
    by code_simp
  have a: "strcasecmp0 (basePropName ''anniversary'') ''ANNIVERSARY''
           \<and> card_anniversary (newCard initialState) = None
           \<and> createProperty ''anniversary'' ''20090808T1430''
               = Some \<lparr>prop_name = ''anniversary'', prop_group = [], prop_parameters = [],
                        prop_values = [''20090808T1430'']\<rparr>"
    by code_simp
  have t1: "CHR ''T'' \<notin> set ''20090808''" and t2: "CHR ''T'' \<notin> set ''circa 1990''"
    by simp_all
  from inst [of "''BDAY;VALUE=text''" initialState "''circa 1990''"]
    inst [of "''anniversary''" initialState "''20090808T1430''"] a b t1 t2
  show ?thesis
    by (simp add: strcasecmp0_def tolower_def)
qed

section \<open>The line of a property\<close>

text \<open>The values of a property joined by a delimiter.\<close>

fun joinValues :: "char \<Rightarrow> string list \<Rightarrow> string" where
  "joinValues d [] = []"
| "joinValues d [v] = v"
| "joinValues d (v # w # vs) = v @ d # joinValues d (w # vs)"

text \<open>The line that \<open>propertyToString\<close> builds, without the buffer.\<close>

definition propertyLine :: "Property \<Rightarrow> string" where
  "propertyLine p =
     (if prop_group p = [] then [] else prop_group p @ ''.'')
     @ prop_name p
     @ concat (map paramText (prop_parameters p))
     @ '':''
     @ joinValues (if isCompoundProperty (prop_name p) then CHR '';'' else CHR '','') (prop_values p)"

lemma appendParams_fits:
  "length str + length (concat (map paramText ps)) < bufSize \<Longrightarrow>
   appendParams bufSize str ps = Some (str @ concat (map paramText ps))"
  by (induction ps arbitrary: str) auto

lemma appendValues_rest:
  "length str + length (concat (map (\<lambda>v. d # v) vs)) < bufSize \<Longrightarrow>
   appendValues bufSize d False str vs = Some (str @ concat (map (\<lambda>v. d # v) vs))"
  by (induction vs arbitrary: str) auto

lemma joinValues_Cons: "joinValues d (v # vs) = v @ concat (map (\<lambda>v. d # v) vs)"
  by (induction vs arbitrary: v) auto

lemma appendValues_fits:
  "length str + length (joinValues d vs) < bufSize \<Longrightarrow>
   appendValues bufSize d True str vs = Some (str @ joinValues d vs)"
proof (cases vs)
  case Nil
  then show ?thesis by simp
next
  case (Cons v ws)
  assume "length str + length (joinValues d vs) < bufSize"
  with Cons have fits: "length (str @ v) + length (concat (map (\<lambda>v. d # v) ws)) < bufSize"
    by (simp add: joinValues_Cons)
  then have "length str + length v < bufSize"
    by simp
  with appendValues_rest [OF fits] Cons show ?thesis
    by (simp add: joinValues_Cons)
qed

lemma length_paramText: "length (paramText p) \<le> length (param_name p) + length (param_value p) + 4"
  by (simp add: paramText_def)

lemma length_params:
  "length (concat (map paramText ps))
     \<le> 2 * sum_list (map (\<lambda>p. length (param_name p) + length (param_value p) + 3) ps)"
proof (induction ps)
  case Nil
  then show ?case by simp
next
  case (Cons p ps)
  with length_paramText [of p] show ?case by simp
qed

lemma length_joinValues:
  "length (joinValues d vs) \<le> sum_list (map (\<lambda>v. length v + 1) vs)"
  by (induction d vs rule: joinValues.induct) auto

lemma propertyToString_eq: "propertyToString p = Some (propertyLine p)"
proof -
  let ?B = "propBufSize p"
  let ?g = "if length (prop_group p) > 0 then prop_group p @ ''.'' else []"
  let ?d = "if isCompoundProperty (prop_name p) then CHR '';'' else CHR '',''"
  let ?ps = "concat (map paramText (prop_parameters p))"
  let ?vs = "joinValues ?d (prop_values p)"
  have B: "?B = (length (prop_name p) + 2
      + (if length (prop_group p) > 0 then length (prop_group p) + 1 else 0)
      + sum_list (map (\<lambda>p. length (param_name p) + length (param_value p) + 3) (prop_parameters p))
      + sum_list (map (\<lambda>v. length v + 1) (prop_values p))) * 2 + 1"
    by (simp add: propBufSize_def)
  have g: "length ?g = (if length (prop_group p) > 0 then length (prop_group p) + 1 else 0)"
    by simp
  have total: "length ?g + length (prop_name p) + length ?ps + 1 + length ?vs < ?B"
    using length_params [of "prop_parameters p"] length_joinValues [of ?d "prop_values p"]
    unfolding B g by (simp split: if_splits)
  have 1: "\<not> (length (prop_group p) > 0 \<and> length ?g \<ge> ?B)"
    using total by simp
  have 2: "\<not> length (?g @ prop_name p) \<ge> ?B"
    using total by simp
  have 3: "appendParams ?B (?g @ prop_name p) (prop_parameters p) = Some (?g @ prop_name p @ ?ps)"
    using appendParams_fits [of "?g @ prop_name p" "prop_parameters p" ?B] total by simp
  have 4: "\<not> length (?g @ prop_name p @ ?ps) + 1 \<ge> ?B"
    using total by simp
  have 5: "appendValues ?B ?d True ((?g @ prop_name p @ ?ps) @ '':'') (prop_values p)
      = Some (((?g @ prop_name p @ ?ps) @ '':'') @ ?vs)"
    using appendValues_fits [of "(?g @ prop_name p @ ?ps) @ '':''" ?d "prop_values p" ?B] total
    by simp
  show ?thesis
    unfolding propertyToString_def Let_def
    using 1 2 3 4 5 by (simp add: propertyLine_def)
qed

section \<open>The delimiter between values\<close>

lemma listToString_loop_values:
  "listToString_loop False False result (map valueToString vs)
     = result @ concat (map (\<lambda>x. (if strstr x ''ext='' then CHR '';'' else CHR '','') # x) vs)"
  by (induction vs arbitrary: result) (auto simp: valueToString_def)

lemma listToString_values:
  "listToString False valueToString (Some (v # vs))
     = v @ concat (map (\<lambda>x. (if strstr x ''ext='' then CHR '';'' else CHR '','') # x) vs)"
  using listToString_loop_values [of v vs]
  by (simp add: listToString_def valueToString_def)

text \<open>
  The delimiter as the claim C3 words it: a semicolon when some value contains \<open>ext=\<close>,
  otherwise a semicolon for \<open>N\<close> and \<open>ADR\<close> and a comma for every other property.
\<close>

definition claimedDelimiter :: "Property \<Rightarrow> char" where
  "claimedDelimiter p =
     (if list_ex (\<lambda>v. strstr v ''ext='') (prop_values p) then CHR '';''
      else if isCompoundProperty (prop_name p) then CHR '';'' else CHR '','')"

definition telExt :: Property where
  "telExt = \<lparr>prop_name = ''TEL'', prop_group = [], prop_parameters = [],
             prop_values = [''555-1234'', ''ext=12'']\<rparr>"

text \<open>
  Claim C3, as stated, fails: \<open>propertyToString\<close>, which serialises a property line,
  chooses the delimiter from the property's name alone, so a \<open>TEL\<close> property whose
  second value contains \<open>ext=\<close> is written with a comma. The test for \<open>ext=\<close> stands
  in \<open>listToString\<close>, where it decides the separator in front of each single element.
\<close>

theorem C3_ext_counterexample:
  "claimedDelimiter telExt = CHR '';''
   \<and> propertyToString telExt = Some ''TEL:555-1234,ext=12''
   \<and> propertyToString telExt \<noteq> Some (''TEL:'' @ joinValues (claimedDelimiter telExt) (prop_values telExt))
   \<and> listToString False valueToString (Some [''ext=12'', ''555-1234'', ''555''])
       = ''ext=12,555-1234,555''"
  by code_simp

text \<open>
  Claim C3, amended. \<open>propertyToString\<close> always succeeds and writes the group with a
  dot (when the group is not empty), the name, each parameter, a colon and the values,
  separated by a semicolon when the name is \<open>N\<close> or \<open>ADR\<close> (compared without case) and
  by a comma otherwise, whatever the values contain. \<open>listToString\<close> on a list of
  values puts a semicolon in front of each value after the first that contains \<open>ext=\<close>
  and a comma in front of each other one.
\<close>

theorem C3_delimiter:
  "propertyToString p
     = Some ((if prop_group p = [] then [] else prop_group p @ ''.'')
             @ prop_name p
             @ concat (map paramText (prop_parameters p))
             @ '':''
             @ joinValues (if strcasecmp0 (prop_name p) ''N'' \<or> strcasecmp0 (prop_name p) ''ADR''
                           then CHR '';'' else CHR '','') (prop_values p))
   \<and> listToString False valueToString (Some (v # vs))
     = v @ concat (map (\<lambda>x. (if strstr x ''ext='' then CHR '';'' else CHR '','') # x) vs)"
  using propertyToString_eq [of p] listToString_values [of v vs]
  by (simp add: propertyLine_def isCompoundProperty_def)

theorem C3_delimiter_witness:
  "propertyToString telExt = Some ''TEL:555-1234,ext=12''
   \<and> propertyToString (telExt\<lparr>prop_name := ''adr''\<rparr>) = Some ''adr:555-1234;ext=12''
   \<and> listToString False valueToString (Some [''555'', ''ext=12'', ''556'']) = ''555;ext=12,556''"
  using C3_delimiter [of telExt "''555''" "[''ext=12'', ''556'']"]
        C3_delimiter [of "telExt\<lparr>prop_name := ''adr''\<rparr>" "''555''" "[''ext=12'', ''556'']"]
  by (simp add: telExt_def strcasecmp0_def tolower_def)

section \<open>Writing the optional properties\<close>


section \<open>Unfolding continuation lines\<close>

lemma cstr_id: "NUL \<notin> set s \<Longrightarrow> cstr s = s"
  by (auto simp: cstr_def)

lemma fgets_line:
  "LF \<notin> set l \<Longrightarrow> length l + 2 \<le> n \<Longrightarrow> fgets n (l @ LF # rest) = Some (l @ [LF], rest)"
  by (simp add: fgets_def strchr_append_first min_def)

lemma fgets_physical:
  assumes "LF \<notin> set body" and "length body + 3 \<le> n"
  shows "fgets n (body @ CRLF @ rest) = Some (body @ CRLF, rest)"
  using fgets_line [of "body @ [CR]" n rest] assms by (simp add: CRLF_def)

lemma hasValidLineEnding_CRLF: "hasValidLineEnding (body @ CRLF)"
  by (simp add: hasValidLineEnding_def CRLF_def nth_append)

lemma cstr_physical: "NUL \<notin> set body \<Longrightarrow> cstr (body @ CRLF) = body @ CRLF"
  by (simp add: cstr_id CRLF_def)

lemma length_CRLF [simp]: "length CRLF = 2"
  by (simp add: CRLF_def)

lemma foldLoop_continuation:
  assumes w: "w = CHR '' '' \<or> w = TAB"
    and seg: "LF \<notin> set seg" "NUL \<notin> set seg" "length seg \<le> 996"
    and fits: "length (dropWhile isspace seg) < bufSize - length buffer - 1"
  shows "foldLoop bufSize buffer (w # seg @ CRLF @ rest)
           = foldLoop bufSize (buffer @ dropWhile isspace seg) rest"
proof -
  have body: "LF \<notin> set (w # seg)" "NUL \<notin> set (w # seg)"
    using w seg by auto
  have g: "fgets 1000 (w # seg @ CRLF @ rest) = Some ((w # seg) @ CRLF, rest)"
    using fgets_physical [of "w # seg" 1000 rest] body(1) seg(3) by simp
  have c: "cstr ((w # seg) @ CRLF) = (w # seg) @ CRLF"
    using body(2) by (rule cstr_physical)
  have k: "isContinuationLine ((w # seg) @ CRLF)"
    using w by (auto simp: isContinuationLine_def)
  show ?thesis
    using fits
    by (subst foldLoop.simps) (simp add: g c k hasValidLineEnding_CRLF del: append_Cons)
qed

lemma foldLoop_stop:
  assumes "\<not> isContinuationLine rest"
  shows "foldLoop bufSize buffer rest = Some (buffer, rest)"
proof (cases rest)
  case Nil
  then show ?thesis
    by (subst foldLoop.simps) (simp add: fgets_def)
next
  case (Cons c cs)
  with assms have c: "c \<noteq> CHR '' ''" "c \<noteq> TAB"
    by (auto simp: isContinuationLine_def)
  obtain raw f where g: "fgets 1000 rest = Some (raw, f)"
    using Cons by (auto simp: fgets_def Let_def)
  then have "raw = take (min (case strchr rest LF of None \<Rightarrow> length rest | Some i \<Rightarrow> i + 1) 999) rest"
    using Cons by (auto simp: fgets_def Let_def)
  moreover have "0 < min (case strchr rest LF of None \<Rightarrow> length rest | Some i \<Rightarrow> i + 1) 999"
    using Cons by (auto split: option.splits)
  ultimately obtain raw' where "raw = c # raw'"
    using Cons by (cases "min (case strchr rest LF of None \<Rightarrow> length rest | Some i \<Rightarrow> i + 1) 999") auto
  then have "\<not> isContinuationLine (cstr raw)"
    using c by (auto simp: isContinuationLine_def cstr_def)
  with g show ?thesis
    by (subst foldLoop.simps) simp
qed

lemma foldLoop_segments:
  assumes "\<forall>(w, seg) \<in> set segs. (w = CHR '' '' \<or> w = TAB) \<and> LF \<notin> set seg \<and> NUL \<notin> set seg
             \<and> length seg \<le> 996"
    and "length (buffer @ concat (map (\<lambda>(w, seg). dropWhile isspace seg) segs)) \<le> 998"
    and "\<not> isContinuationLine rest"
  shows "foldLoop 1000 buffer (concat (map (\<lambda>(w, seg). w # seg @ CRLF) segs) @ rest)
           = Some (buffer @ concat (map (\<lambda>(w, seg). dropWhile isspace seg) segs), rest)"
  using assms
proof (induction segs arbitrary: buffer)
  case Nil
  then show ?case by (simp add: foldLoop_stop)
next
  case (Cons a segs)
  obtain w seg where a: "a = (w, seg)" by (cases a)
  from Cons.prems(1) a have w: "w = CHR '' '' \<or> w = TAB" and seg: "LF \<notin> set seg" "NUL \<notin> set seg" "length seg \<le> 996"
    by auto
  from Cons.prems(2) a have fits: "length (dropWhile isspace seg) < 1000 - length buffer - 1"
    by simp
  have step: "foldLoop 1000 buffer (w # seg @ CRLF @ concat (map (\<lambda>(w, seg). w # seg @ CRLF) segs) @ rest)
      = foldLoop 1000 (buffer @ dropWhile isspace seg) (concat (map (\<lambda>(w, seg). w # seg @ CRLF) segs) @ rest)"
    using foldLoop_continuation [OF w seg fits] .
  have "foldLoop 1000 (buffer @ dropWhile isspace seg) (concat (map (\<lambda>(w, seg). w # seg @ CRLF) segs) @ rest)
      = Some ((buffer @ dropWhile isspace seg) @ concat (map (\<lambda>(w, seg). dropWhile isspace seg) segs), rest)"
    using Cons.prems a by (intro Cons.IH) auto
  with step a show ?case by simp
qed

text \<open>
  Claim C4, amended. From a continuation line (a physical line that begins with a
  space or a tab) the reader drops that first byte and every whitespace byte that
  follows it, and appends the rest to the logical line. So for a first physical line
  \<open>first\<close> followed by continuation lines with the contents \<open>segs\<close>, free of NUL and
  line feed, each physical line short enough for the 1000-byte line buffer and the
  unfolded line at most 998 bytes long, and followed by something that is not a
  continuation line, \<open>readFoldedLine\<close> returns \<open>first\<close> followed by the contents with
  their leading whitespace removed, and leaves the stream in front of what follows.
  The unfolded line is the text as written on one line exactly when no continuation
  content begins with whitespace.
\<close>

theorem C4_unfolding:
  assumes "\<forall>(w, seg) \<in> set segs. (w = CHR '' '' \<or> w = TAB) \<and> LF \<notin> set seg \<and> NUL \<notin> set seg
             \<and> length seg \<le> 996"
    and "LF \<notin> set first" and "NUL \<notin> set first" and "length first \<le> 997"
    and "length (first @ concat (map (\<lambda>(w, seg). dropWhile isspace seg) segs)) \<le> 998"
    and "\<not> isContinuationLine rest"
  shows "readFoldedLine 1000 (first @ CRLF @ concat (map (\<lambda>(w, seg). w # seg @ CRLF) segs) @ rest)
           = Some (first @ concat (map (\<lambda>(w, seg). dropWhile isspace seg) segs), rest)"
proof -
  let ?tail = "concat (map (\<lambda>(w, seg). w # seg @ CRLF) segs) @ rest"
  have g: "fgets 1000 (first @ CRLF @ ?tail) = Some (first @ CRLF, ?tail)"
    using fgets_physical [of first 1000 ?tail] assms(2,4) by simp
  have c: "cstr (first @ CRLF) = first @ CRLF"
    using assms(3) by (rule cstr_physical)
  show ?thesis
    unfolding readFoldedLine_def
    using foldLoop_segments [OF assms(1,5,6)]
    by (simp add: g c hasValidLineEnding_CRLF)
qed

theorem C4_unfolding_witness:
  "readFoldedLine 1000 (''NOTE:ab'' @ CRLF @ '' cd'' @ CRLF @ [TAB] @ ''  ef'' @ CRLF @ ''TEL:1'' @ CRLF)
     = Some (''NOTE:abcdef'', ''TEL:1'' @ CRLF)"
  using C4_unfolding [of "[(CHR '' '', ''cd''), (TAB, ''  ef'')]" "''NOTE:ab''" "''TEL:1'' @ CRLF"]
  by (simp add: isspace_def isContinuationLine_def CRLF_def)


text \<open>
  Claim C4, as stated, fails: a continuation line that begins with two spaces loses
  both, not exactly one, so the text \<open>ab cd\<close> folded in front of its blank does not
  unfold to what it is when written on one line.
\<close>

theorem C4_strips_all_counterexample:
  "readFoldedLine 1000 (''ab'' @ CRLF @ ''  cd'' @ CRLF) = Some (''abcd'', [])
   \<and> ''abcd'' \<noteq> ''ab'' @ tl ''  cd''
   \<and> readFoldedLine 1000 (''ab cd'' @ CRLF) = Some (''ab cd'', [])"
  by code_simp

section \<open>The lines the body loop handles\<close>

text \<open>
  The run of the second loop of \<open>createCard\<close> as a list: each logical line the loop
  reads, trimmed, with the state in which the loop reads it. The list ends with the
  \<open>END:VCARD\<close> line, with the line on which \<open>processLine\<close> fails, or where the reader
  gives up. It follows the recursion of \<open>processBody\<close> and is used to state what a
  parse has seen.
\<close>

function bodyTrace :: "ParseState \<Rightarrow> string \<Rightarrow> (ParseState \<times> string) list" where
  "bodyTrace st file =
     (case readFoldedLine 1000 file of
        None \<Rightarrow> []
      | Some (line, file') \<Rightarrow>
          if line = [] then []
          else if strcasecmp0 (trimWhitespace line) ''END:VCARD'' then [(st, trimWhitespace line)]
          else (st, trimWhitespace line)
               # (case processLine st (trimWhitespace line) of
                    Inl err \<Rightarrow> []
                  | Inr st' \<Rightarrow> bodyTrace st' file'))"
  by pat_completeness auto
termination
  by (relation "measure (\<lambda>(st, file). length file)") (auto dest: readFoldedLine_shorter [rotated])

declare bodyTrace.simps [simp del]

text \<open>A trimmed line that is a property line whose name, cut at the first semicolon, is \<open>name\<close> without regard to case.\<close>

definition isLineOf :: "string \<Rightarrow> string \<Rightarrow> bool" where
  "isLineOf name line \<longleftrightarrow>
     (case validatePropertyLine line of
        Inl _ \<Rightarrow> False
      | Inr (propName, propValue) \<Rightarrow> strcasecmp0 (basePropName propName) name)"





















section \<open>Facts about the validator's loop\<close>

lemma validateOptional_append:
  "validateOptional hasN (pre @ rest)
     = (case validateOptional hasN pre of
          Some e \<Rightarrow> Some e
        | None \<Rightarrow> validateOptional (hasN \<or> list_ex (\<lambda>p. prop_name p = ''N'') pre) rest)"
  by (induction pre arbitrary: hasN) (auto split: option.splits)

lemma validateOptional_None:
  "validateOptional hasN props = None \<Longrightarrow>
     (\<forall>p \<in> set props. prop_name p \<noteq> ''BDAY'' \<and> prop_name p \<noteq> ''ANNIVERSARY'')
     \<and> length (filter (\<lambda>p. prop_name p = ''N'') props) \<le> (if hasN then 0 else 1)"
proof (induction props arbitrary: hasN)
  case Nil
  then show ?case by simp
next
  case (Cons a props)
  from Cons.prems have a: "prop_name a \<noteq> ''BDAY''" "prop_name a \<noteq> ''ANNIVERSARY''"
      and n: "\<not> (hasN \<and> prop_name a = ''N'')"
      and r: "validateOptional (hasN \<or> prop_name a = ''N'') props = None"
    by (auto split: if_splits)
  from Cons.IH [OF r] a n show ?case
    by (auto split: if_splits)
qed



lemma validateCard_not_OK:
  "card_optionalProperties c = Some props \<Longrightarrow> validateOptional False props \<noteq> None \<Longrightarrow>
   validateOptional False props \<noteq> Some OK \<Longrightarrow> validateCard (Some c) \<noteq> OK"
  by (auto simp: validateCard_def split: option.splits)

lemma validateOptional_not_OK: "validateOptional hasN props \<noteq> Some OK"
  by (induction props arbitrary: hasN) auto

lemma validateCard_optional_error:
  "card_fn c = Some f \<Longrightarrow> validateProperty f False = OK \<Longrightarrow> card_optionalProperties c = Some props \<Longrightarrow>
   validateOptional False props = Some e \<Longrightarrow> validateCard (Some c) = e"
  by (simp add: validateCard_def)

section \<open>Properties that may occur once\<close>

lemma createCard_parseCard:
  "name \<noteq> [] \<Longrightarrow> isValidExtension name \<Longrightarrow> fs name = Some content \<Longrightarrow>
   createCard (Some name) fs = parseCard content"
  by (simp add: createCard_def)


definition nameN :: Property where
  "nameN = \<lparr>prop_name = ''N'', prop_group = [], prop_parameters = [],
            prop_values = [''Doe'', ''John'', [], [], []]\<rparr>"

definition bdayProp :: Property where
  "bdayProp = \<lparr>prop_name = ''BDAY'', prop_group = [], prop_parameters = [], prop_values = []\<rparr>"

definition fnJohn :: Property where
  "fnJohn = \<lparr>prop_name = ''FN'', prop_group = [], prop_parameters = [], prop_values = [''John Doe'']\<rparr>"







section \<open>Dates among the optional properties\<close>

definition unknownProp :: Property where
  "unknownProp = \<lparr>prop_name = ''XYZ'', prop_group = [], prop_parameters = [], prop_values = [''1'']\<rparr>"

text \<open>
  Claim C8, as stated, fails: a card whose optional properties contain a \<open>BDAY\<close>
  property is rejected with the error of the first check that fails, which is
  \<open>INV_CARD\<close> when \<open>fn\<close> is \<open>NULL\<close> and \<open>INV_PROP\<close> when a property with an unknown
  name comes first.
\<close>

theorem C8_other_errors_counterexample:
  "validateCard (Some \<lparr>card_fn = None, card_optionalProperties = Some [bdayProp],
                        card_birthday = None, card_anniversary = None\<rparr>) = INV_CARD
   \<and> validateCard (Some \<lparr>card_fn = Some fnJohn, card_optionalProperties = Some [unknownProp, bdayProp],
                          card_birthday = None, card_anniversary = None\<rparr>) = INV_PROP"
  by code_simp

lemma validateOptional_date:
  "prop_name p = ''BDAY'' \<or> prop_name p = ''ANNIVERSARY'' \<Longrightarrow> p \<in> set props \<Longrightarrow>
   validateOptional hasN props \<noteq> None"
  using validateOptional_None [of hasN props] by auto

text \<open>
  Claim C8, amended. For every card whose optional properties contain a property named
  \<open>BDAY\<close> or \<open>ANNIVERSARY\<close>, \<open>validateCard\<close> does not return \<open>OK\<close>. It returns the date
  error \<open>INV_DT\<close> when the FN property is valid and the properties in front of that
  one pass the loop of the validator; the property itself is not validated first, so
  the answer is \<open>INV_DT\<close> even when \<open>validateProperty\<close> would reject it.
\<close>

theorem C8_date_among_optional:
  "(card_optionalProperties c = Some props \<and> p \<in> set props
      \<and> (prop_name p = ''BDAY'' \<or> prop_name p = ''ANNIVERSARY'')
    \<longrightarrow> validateCard (Some c) \<noteq> OK)
   \<and> (card_fn c = Some f \<and> validateProperty f False = OK
        \<and> card_optionalProperties c = Some (pre @ b # post)
        \<and> validateOptional False pre = None
        \<and> (prop_name b = ''BDAY'' \<or> prop_name b = ''ANNIVERSARY'')
    \<longrightarrow> validateCard (Some c) = INV_DT)"
proof (intro conjI impI)
  assume a: "card_optionalProperties c = Some props \<and> p \<in> set props
      \<and> (prop_name p = ''BDAY'' \<or> prop_name p = ''ANNIVERSARY'')"
  then have "validateOptional False props \<noteq> None"
    using validateOptional_date [of p props False] by blast
  with a show "validateCard (Some c) \<noteq> OK"
    using validateCard_not_OK [of c props] validateOptional_not_OK [of False props] by simp
next
  assume a: "card_fn c = Some f \<and> validateProperty f False = OK
        \<and> card_optionalProperties c = Some (pre @ b # post)
        \<and> validateOptional False pre = None
        \<and> (prop_name b = ''BDAY'' \<or> prop_name b = ''ANNIVERSARY'')"
  then have "validateOptional False (pre @ b # post) = Some INV_DT"
    by (auto simp: validateOptional_append)
  with a show "validateCard (Some c) = INV_DT"
    using validateCard_optional_error [of c f "pre @ b # post" INV_DT] by simp
qed

theorem C8_date_among_optional_witness:
  "validateProperty bdayProp True = INV_PROP
   \<and> validateCard (Some \<lparr>card_fn = Some fnJohn, card_optionalProperties = Some [nameN, bdayProp],
                          card_birthday = None, card_anniversary = None\<rparr>) = INV_DT"
proof -
  let ?c = "\<lparr>card_fn = Some fnJohn, card_optionalProperties = Some [nameN, bdayProp],
             card_birthday = None, card_anniversary = None\<rparr>"
  have valid: "card_fn ?c = Some fnJohn \<and> validateProperty fnJohn False = OK
      \<and> card_optionalProperties ?c = Some ([nameN] @ bdayProp # [])
      \<and> validateOptional False [nameN] = None
      \<and> (prop_name bdayProp = ''BDAY'' \<or> prop_name bdayProp = ''ANNIVERSARY'')
      \<and> validateProperty bdayProp True = INV_PROP"
    by code_simp
  from C8_date_among_optional [of ?c "[nameN, bdayProp]" bdayProp fnJohn "[nameN]" bdayProp "[]"] valid
  show ?thesis
    by blast
qed

section \<open>What an accepted card has seen\<close>

text \<open>A trimmed line that is a \<open>VERSION\<close> line whose value is exactly \<open>4.0\<close>.\<close>

definition isVersion40 :: "string \<Rightarrow> bool" where
  "isVersion40 line \<longleftrightarrow>
     (case validatePropertyLine line of
        Inl _ \<Rightarrow> False
      | Inr (propName, propValue) \<Rightarrow>
          strcasecmp0 (basePropName propName) ''VERSION'' \<and> propValue = ''4.0'')"

lemma handleSpecialProperty_flags:
  assumes "handleSpecialProperty st n v = (OK, st')"
  shows "(foundFN st' \<longrightarrow> foundFN st \<or> strcasecmp0 (basePropName n) ''FN'')
       \<and> (foundVersion st' \<longrightarrow> foundVersion st \<or> strcasecmp0 (basePropName n) ''VERSION'')
       \<and> (validVersion st' \<longrightarrow> validVersion st
             \<or> (strcasecmp0 (basePropName n) ''VERSION'' \<and> v = ''4.0''))"
  using assms
  by (auto simp: handleSpecialProperty_def split: if_splits option.splits)

lemma processLine_flags:
  assumes "processLine st l = Inr st'"
  shows "(foundFN st' \<longrightarrow> foundFN st \<or> isLineOf ''FN'' l)
       \<and> (foundVersion st' \<longrightarrow> foundVersion st \<or> isLineOf ''VERSION'' l)
       \<and> (validVersion st' \<longrightarrow> validVersion st \<or> isVersion40 l)"
proof -
  from assms obtain n v st1 where l: "validatePropertyLine l = Inr (n, v)"
      and h: "handleSpecialProperty st n v = (OK, st1)"
      and st': "st' = st1 \<or> (\<exists>prop. st' = st1\<lparr>newCard := (newCard st1)\<lparr>card_optionalProperties :=
                  map_option (\<lambda>props. props @ [prop]) (card_optionalProperties (newCard st1))\<rparr>\<rparr>)"
    by (auto simp: processLine_def split: sum.splits option.splits if_splits prod.splits)
  from handleSpecialProperty_flags [OF h] l st' show ?thesis
    by (auto simp: isLineOf_def isVersion40_def)
qed

lemma processBody_seen:
  assumes "processBody st file = Inr (st', foundEnd)"
  shows "(foundEnd \<longrightarrow> (\<exists>(s, l) \<in> set (bodyTrace st file). strcasecmp0 l ''END:VCARD''))
       \<and> (foundFN st' \<longrightarrow> foundFN st \<or> (\<exists>(s, l) \<in> set (bodyTrace st file). isLineOf ''FN'' l))
       \<and> (foundVersion st' \<longrightarrow> foundVersion st
             \<or> (\<exists>(s, l) \<in> set (bodyTrace st file). isLineOf ''VERSION'' l))
       \<and> (validVersion st' \<longrightarrow> validVersion st
             \<or> (\<exists>(s, l) \<in> set (bodyTrace st file). isVersion40 l))"
  using assms
proof (induction st "file" rule: processBody.induct)
  case (1 st f)
  show ?case
  proof (cases "readFoldedLine 1000 f")
    case None
    with "1.prems" show ?thesis
      by (subst (asm) processBody.simps) auto
  next
    case (Some a)
    obtain line f1 where a: "a = (line, f1)" by (cases a)
    show ?thesis
    proof (cases "line = []")
      case True
      with "1.prems" Some a show ?thesis
        by (subst (asm) processBody.simps) simp
    next
      case ne: False
      show ?thesis
      proof (cases "strcasecmp0 (trimWhitespace line) ''END:VCARD''")
        case True
        with ne Some a have "bodyTrace st f = [(st, trimWhitespace line)]"
          by (subst bodyTrace.simps) simp
        moreover from "1.prems" True ne Some a have "st' = st"
          by (subst (asm) processBody.simps) simp
        ultimately show ?thesis
          using True by simp
      next
        case False
        from "1.prems" False ne Some a obtain st1 where
            p: "processLine st (trimWhitespace line) = Inr st1"
            and rest: "processBody st1 f1 = Inr (st', foundEnd)"
          by (subst (asm) processBody.simps) (auto split: sum.splits)
        from False ne Some a p have T: "bodyTrace st f = (st, trimWhitespace line) # bodyTrace st1 f1"
          by (subst bodyTrace.simps) simp
        from "1.IH" [OF Some a [symmetric] ne False p rest]
          processLine_flags [OF p] show ?thesis
          unfolding T by auto
      qed
    qed
  qed
qed

definition noVersion :: string where
  "noVersion = ''BEGIN:VCARD'' @ CRLF @ ''FN:John Doe'' @ CRLF @ ''END:VCARD'' @ CRLF"

lemma createCard_OK:
  assumes "createCard fileName fs = (OK, obj)"
  obtains name content where "fileName = Some name" and "name \<noteq> []" and "isValidExtension name"
    and "fs name = Some content" and "parseCard content = (OK, obj)"
  using assms
  by (auto simp: createCard_def split: option.splits if_splits)

lemma processLine_not_OK: "processLine st l \<noteq> Inl OK"
  by (auto simp: processLine_def validatePropertyLine_def
           split: sum.splits option.splits if_splits prod.splits)

lemma processBody_not_OK: "processBody st file \<noteq> Inl OK"
proof (induction st "file" rule: processBody.induct)
  case (1 st f)
  show ?case
  proof (cases "readFoldedLine 1000 f")
    case None
    then show ?thesis
      by (subst processBody.simps) simp
  next
    case (Some a)
    obtain line f1 where a: "a = (line, f1)" by (cases a)
    show ?thesis
    proof (cases "processLine st (trimWhitespace line)")
      case (Inl e)
      with Some a processLine_not_OK [of st "trimWhitespace line"] show ?thesis
        by (subst processBody.simps) simp
    next
      case (Inr st1)
      with Some a "1.IH" [OF Some a [symmetric] _ _ Inr] show ?thesis
        by (subst processBody.simps) simp
    qed
  qed
qed

lemma parseCard_OK:
  assumes "parseCard content = (OK, obj)"
  obtains f st where "seekBegin content = Some f"
    and "processBody initialState f = Inr (st, True)"
    and "foundFN st" and "foundVersion st" and "validVersion st" and "obj = Some (newCard st)"
  using assms processBody_not_OK [of initialState]
  by (auto simp: parseCard_def split: option.splits sum.splits if_splits)

lemma initialState_flags [simp]:
  "\<not> foundFN initialState" "\<not> foundVersion initialState" "\<not> validVersion initialState"
  by (simp_all add: initialState_def)

text \<open>
  Claim C5. When \<open>createCard\<close> returns \<open>OK\<close>, it stores a card, and the lines its
  second loop has read from the file include an \<open>END:VCARD\<close> line, an \<open>FN\<close> line, a
  \<open>VERSION\<close> line, and a \<open>VERSION\<close> line whose value is exactly \<open>4.0\<close>. Once the loop is
  left without an error from inside it, the result is decided by the four flags: \<open>OK\<close>
  with the card when all are set, \<open>INV_CARD\<close> with no card otherwise; so when one of
  the four lines was not read, the parse fails with \<open>INV_CARD\<close>. No card is stored
  unless the result is \<open>OK\<close>. The card without a \<open>VERSION\<close> line fails with \<open>INV_CARD\<close>.
\<close>

theorem C5_required_lines:
  "(createCard fileName fs = (OK, obj) \<longrightarrow>
      (\<exists>name content file c.
         fileName = Some name \<and> fs name = Some content \<and> seekBegin content = Some file
         \<and> obj = Some c
         \<and> (\<exists>(s, l) \<in> set (bodyTrace initialState file). strcasecmp0 l ''END:VCARD'')
         \<and> (\<exists>(s, l) \<in> set (bodyTrace initialState file). isLineOf ''FN'' l)
         \<and> (\<exists>(s, l) \<in> set (bodyTrace initialState file). isLineOf ''VERSION'' l)
         \<and> (\<exists>(s, l) \<in> set (bodyTrace initialState file). isVersion40 l)))
   \<and> (name \<noteq> [] \<and> isValidExtension name \<and> fs name = Some content
        \<and> seekBegin content = Some file \<and> processBody initialState file = Inr (st, foundEnd)
      \<longrightarrow> createCard (Some name) fs
            = (if foundEnd \<and> foundFN st \<and> foundVersion st \<and> validVersion st
               then (OK, Some (newCard st)) else (INV_CARD, None)))
   \<and> (name \<noteq> [] \<and> isValidExtension name \<and> fs name = Some content
        \<and> seekBegin content = Some file \<and> processBody initialState file = Inr (st, foundEnd)
        \<and> \<not> ((\<exists>(s, l) \<in> set (bodyTrace initialState file). strcasecmp0 l ''END:VCARD'')
              \<and> (\<exists>(s, l) \<in> set (bodyTrace initialState file). isLineOf ''FN'' l)
              \<and> (\<exists>(s, l) \<in> set (bodyTrace initialState file). isLineOf ''VERSION'' l)
              \<and> (\<exists>(s, l) \<in> set (bodyTrace initialState file). isVersion40 l))
      \<longrightarrow> createCard (Some name) fs = (INV_CARD, None))
   \<and> (fst (createCard fileName fs) \<noteq> OK \<longrightarrow> snd (createCard fileName fs) = None)
   \<and> createCard (Some ''a.vcf'') [''a.vcf'' \<mapsto> noVersion] = (INV_CARD, None)"
proof (intro conjI impI)
  assume "createCard fileName fs = (OK, obj)"
  then obtain name content where n: "fileName = Some name" "fs name = Some content"
      and p: "parseCard content = (OK, obj)"
    by (rule createCard_OK)
  from p obtain f st where s: "seekBegin content = Some f"
      and b: "processBody initialState f = Inr (st, True)"
      and flags: "foundFN st" "foundVersion st" "validVersion st" and obj: "obj = Some (newCard st)"
    by (rule parseCard_OK)
  from processBody_seen [OF b] flags
  have "(\<exists>(s, l) \<in> set (bodyTrace initialState f). strcasecmp0 l ''END:VCARD'')
         \<and> (\<exists>(s, l) \<in> set (bodyTrace initialState f). isLineOf ''FN'' l)
         \<and> (\<exists>(s, l) \<in> set (bodyTrace initialState f). isLineOf ''VERSION'' l)
         \<and> (\<exists>(s, l) \<in> set (bodyTrace initialState f). isVersion40 l)"
    by simp
  with n s obj show "\<exists>name content file c.
         fileName = Some name \<and> fs name = Some content \<and> seekBegin content = Some file
         \<and> obj = Some c
         \<and> (\<exists>(s, l) \<in> set (bodyTrace initialState file). strcasecmp0 l ''END:VCARD'')
         \<and> (\<exists>(s, l) \<in> set (bodyTrace initialState file). isLineOf ''FN'' l)
         \<and> (\<exists>(s, l) \<in> set (bodyTrace initialState file). isLineOf ''VERSION'' l)
         \<and> (\<exists>(s, l) \<in> set (bodyTrace initialState file). isVersion40 l)"
    by blast
next
  assume "name \<noteq> [] \<and> isValidExtension name \<and> fs name = Some content
        \<and> seekBegin content = Some file \<and> processBody initialState file = Inr (st, foundEnd)"
  then show "createCard (Some name) fs
            = (if foundEnd \<and> foundFN st \<and> foundVersion st \<and> validVersion st
               then (OK, Some (newCard st)) else (INV_CARD, None))"
    by (simp add: createCard_parseCard parseCard_def)
next
  assume a: "name \<noteq> [] \<and> isValidExtension name \<and> fs name = Some content
        \<and> seekBegin content = Some file \<and> processBody initialState file = Inr (st, foundEnd)
        \<and> \<not> ((\<exists>(s, l) \<in> set (bodyTrace initialState file). strcasecmp0 l ''END:VCARD'')
              \<and> (\<exists>(s, l) \<in> set (bodyTrace initialState file). isLineOf ''FN'' l)
              \<and> (\<exists>(s, l) \<in> set (bodyTrace initialState file). isLineOf ''VERSION'' l)
              \<and> (\<exists>(s, l) \<in> set (bodyTrace initialState file). isVersion40 l))"
  then have b: "processBody initialState file = Inr (st, foundEnd)"
    by simp
  from processBody_seen [OF b] a have "\<not> (foundEnd \<and> foundFN st \<and> foundVersion st \<and> validVersion st)"
    by auto
  with a show "createCard (Some name) fs = (INV_CARD, None)"
    by (auto simp: createCard_parseCard parseCard_def)
next
  assume "fst (createCard fileName fs) \<noteq> OK"
  then show "snd (createCard fileName fs) = None"
    by (auto simp: createCard_def parseCard_def split: option.splits sum.splits if_splits)
next
  show "createCard (Some ''a.vcf'') [''a.vcf'' \<mapsto> noVersion] = (INV_CARD, None)"
    by code_simp
qed

theorem C5_required_lines_witness:
  "createCard (Some ''a.vcf'') [''a.vcf'' \<mapsto> noVersion] = (INV_CARD, None)
   \<and> fst (createCard (Some ''john.vcf'') [''john.vcf'' \<mapsto> johnDoe]) = OK
   \<and> (\<exists>file. seekBegin johnDoe = Some file
         \<and> (\<exists>(s, l) \<in> set (bodyTrace initialState file). isVersion40 l))"
proof -
  have ok: "createCard (Some ''john.vcf'') [''john.vcf'' \<mapsto> johnDoe]
      = (OK, snd (createCard (Some ''john.vcf'') [''john.vcf'' \<mapsto> johnDoe]))"
    by code_simp
  have "[''john.vcf'' \<mapsto> johnDoe] name = Some content \<Longrightarrow> content = johnDoe" for name content
    by (simp split: if_splits)
  with C5_required_lines [of "Some ''john.vcf''" "[''john.vcf'' \<mapsto> johnDoe]"
      "snd (createCard (Some ''john.vcf'') [''john.vcf'' \<mapsto> johnDoe])", THEN conjunct1] ok
  have "\<exists>file. seekBegin johnDoe = Some file
         \<and> (\<exists>(s, l) \<in> set (bodyTrace initialState file). isVersion40 l)"
    by blast
  moreover have "fst (createCard (Some ''john.vcf'') [''john.vcf'' \<mapsto> johnDoe]) = OK"
    using ok by (metis fst_conv)
  moreover have "createCard (Some ''a.vcf'') [''a.vcf'' \<mapsto> noVersion] = (INV_CARD, None)"
    using C5_required_lines [of None Map.empty None "[]" "[]" "[]" initialState False]
    by simp
  ultimately show ?thesis
    by blast
qed

section \<open>Reading a written file line by line\<close>









subsection \<open>The lines that \<open>writeCard\<close> writes\<close>

text \<open>The line that \<open>writeCard\<close> writes for a date, without its terminator.\<close>

definition dateLine :: "string \<Rightarrow> DateTime \<Rightarrow> string" where
  "dateLine label dt =
     (if dt_isText dt then label @ '';VALUE=text:'' @ dt_text dt
      else if length (dt_date dt) = 0 \<and> length (dt_time dt) > 0 then label @ '':T'' @ dt_time dt
      else label @ '':'' @ dateToString dt)"


text \<open>A file made of physical lines, each ended by CR LF.\<close>

definition linesFile :: "string list \<Rightarrow> string" where
  "linesFile ls = concat (map (\<lambda>l. l @ CRLF) ls)"

text \<open>
  The lines that \<open>writeCard\<close> writes after \<open>BEGIN:VCARD\<close>: the version, the FN
  property when there is one, the optional properties, the dates and the end.
\<close>

definition writtenLines :: "Card \<Rightarrow> string list" where
  "writtenLines c =
     ''VERSION:4.0''
     # (case card_fn c of None \<Rightarrow> [] | Some f \<Rightarrow> [propertyLine f])
     @ map propertyLine (case card_optionalProperties c of None \<Rightarrow> [] | Some props \<Rightarrow> props)
     @ (case card_birthday c of None \<Rightarrow> [] | Some dt \<Rightarrow> [dateLine ''BDAY'' dt])
     @ (case card_anniversary c of None \<Rightarrow> [] | Some dt \<Rightarrow> [dateLine ''ANNIVERSARY'' dt])
     @ [''END:VCARD'']"

lemma linesFile_simps [simp]:
  "linesFile [] = []" "linesFile (l # ls) = l @ CRLF @ linesFile ls"
  "linesFile (xs @ ys) = linesFile xs @ linesFile ys"
  by (simp_all add: linesFile_def)



subsection \<open>Logical lines of a file whose physical lines hold no line feed\<close>






subsection \<open>The name the parser reads in a line\<close>

text \<open>
  The name under which \<open>createCard\<close> dispatches a line: the text before the first
  colon, trimmed, and cut at its first semicolon.
\<close>

definition lineName :: "string \<Rightarrow> string" where
  "lineName line = basePropName (trimWhitespace (takeWhile (\<lambda>c. c \<noteq> CHR '':'') line))"


lemma strchr_Some_in: "strchr s c = Some i \<Longrightarrow> c \<in> set s"
  using strchr_None_iff [of s c] by auto







section \<open>A card written without its FN property\<close>




text \<open>No line that \<open>writeCard\<close> writes holds a line feed.\<close>

definition lineFeedFree :: "Card \<Rightarrow> bool" where
  "lineFeedFree c \<longleftrightarrow> list_all (\<lambda>l. LF \<notin> set l) (writtenLines c)"








text \<open>
  The condition on line feeds cannot be dropped: a value that holds a line end
  followed by \<open>FN:John\<close> puts an \<open>FN\<close> line into the file, which \<open>createCard\<close> then
  accepts, although no optional property has a line named \<open>FN\<close>.
\<close>

definition noteWithLineEnd :: Card where
  "noteWithLineEnd =
     \<lparr>card_fn = None,
      card_optionalProperties = Some
        [\<lparr>prop_name = ''NOTE'', prop_group = [], prop_parameters = [],
          prop_values = [''x'' @ CRLF @ ''FN:John'']\<rparr>],
      card_birthday = None, card_anniversary = None\<rparr>"

lemma line_feed_makes_FN_line:
  "\<not> lineFeedFree noteWithLineEnd
   \<and> list_all (\<lambda>p. \<not> strcasecmp0 (lineName (propertyLine p)) ''FN'')
        (case card_optionalProperties noteWithLineEnd of None \<Rightarrow> [] | Some props \<Rightarrow> props)
   \<and> writeCard (Some ''a.vcf'') (Some noteWithLineEnd) True
     = (OK, Some (''BEGIN:VCARD'' @ CRLF @ ''VERSION:4.0'' @ CRLF @ ''NOTE:x'' @ CRLF
                  @ ''FN:John'' @ CRLF @ ''END:VCARD'' @ CRLF))
   \<and> fst (createCard (Some ''a.vcf'')
            [''a.vcf'' \<mapsto> ''BEGIN:VCARD'' @ CRLF @ ''VERSION:4.0'' @ CRLF @ ''NOTE:x'' @ CRLF
                  @ ''FN:John'' @ CRLF @ ''END:VCARD'' @ CRLF]) = OK"
  by code_simp

section \<open>Writing a card and reading it back\<close>



subsection \<open>The cards that survive the round trip\<close>

text \<open>The two sides of the colon in the line of a property.\<close>

definition namePart :: "Property \<Rightarrow> string" where
  "namePart p =
     (if prop_group p = [] then [] else prop_group p @ ''.'')
     @ prop_name p @ concat (map paramText (prop_parameters p))"


text \<open>
  A line that the reader returns as it was written: at most 997 bytes, without NUL and
  without line feed. A text is trimmed when it is empty or has no whitespace at
  either end.
\<close>

definition plainLine :: "string \<Rightarrow> bool" where
  "plainLine l \<longleftrightarrow> NUL \<notin> set l \<and> LF \<notin> set l \<and> length l \<le> 997"

definition trimmed :: "string \<Rightarrow> bool" where
  "trimmed s \<longleftrightarrow> s = [] \<or> (\<not> isspace (hd s) \<and> \<not> isspace (last s))"

text \<open>
  A parameter that is read back as it is: name and value are trimmed and hold no
  colon and no semicolon, the name holds no equals sign, and a value with a comma also
  holds a double quote (otherwise \<open>propertyToString\<close> wraps it in quotes, which the
  parser keeps). In a property without group neither holds a dot, which would be read
  as the end of a group.
\<close>

definition wireSafeParameter :: "bool \<Rightarrow> Parameter \<Rightarrow> bool" where
  "wireSafeParameter grouped q \<longleftrightarrow>
     trimmed (param_name q) \<and> trimmed (param_value q)
     \<and> list_all (\<lambda>c. c \<noteq> CHR '':'' \<and> c \<noteq> CHR '';'' \<and> c \<noteq> CHR ''='' \<and> (grouped \<or> c \<noteq> CHR ''.''))
          (param_name q)
     \<and> list_all (\<lambda>c. c \<noteq> CHR '':'' \<and> c \<noteq> CHR '';'' \<and> (grouped \<or> c \<noteq> CHR ''.''))
          (param_value q)
     \<and> (CHR '','' \<in> set (param_value q) \<longrightarrow> CHR 0x22 \<in> set (param_value q))"

text \<open>
  A group that is read back as it is: it does not begin with whitespace and holds no
  colon and no dot; when it holds a semicolon, the name part of the line must still
  pass \<open>validateParameters\<close>, which looks at every semicolon in front of the colon.
\<close>

definition wireSafeGroup :: "Property \<Rightarrow> bool" where
  "wireSafeGroup p \<longleftrightarrow>
     prop_group p = []
     \<or> (\<not> isspace (hd (prop_group p))
         \<and> list_all (\<lambda>c. c \<noteq> CHR '':'' \<and> c \<noteq> CHR ''.'') (prop_group p)
         \<and> (CHR '';'' \<in> set (prop_group p) \<longrightarrow> validateParameters (namePart p)))"

text \<open>
  Values that are read back as they are. The value of a property other than \<open>N\<close> and
  \<open>ADR\<close> is read as one text, so there is exactly one, trimmed and not empty. The
  values of \<open>N\<close> and \<open>ADR\<close> are trimmed and hold no semicolon; the list whose last
  value is empty is left out here.
\<close>

definition wireSafeValues :: "string \<Rightarrow> string list \<Rightarrow> bool" where
  "wireSafeValues name vs \<longleftrightarrow>
     (if isCompoundProperty name
      then vs \<noteq> [] \<and> list_all (\<lambda>v. trimmed v \<and> CHR '';'' \<notin> set v) vs \<and> last vs \<noteq> []
      else (case vs of [v] \<Rightarrow> trimmed v \<and> v \<noteq> [] | _ \<Rightarrow> False))"

definition wireSafeProperty :: "Property \<Rightarrow> bool" where
  "wireSafeProperty p \<longleftrightarrow>
     plainLine (propertyLine p) \<and> wireSafeGroup p
     \<and> list_all (wireSafeParameter (prop_group p \<noteq> [])) (prop_parameters p)
     \<and> wireSafeValues (prop_name p) (prop_values p)"

text \<open>
  A date that is read back as it is: not UTC, and a trimmed text, or a trimmed date
  without \<open>T\<close> and without time, or a time without date that does not end with
  whitespace.
\<close>

definition wireSafeDate :: "string \<Rightarrow> DateTime \<Rightarrow> bool" where
  "wireSafeDate label dt \<longleftrightarrow>
     \<not> dt_UTC dt \<and> plainLine (dateLine label dt)
     \<and> (if dt_isText dt then trimmed (dt_text dt)
         else if dt_time dt = [] then trimmed (dt_date dt) \<and> CHR ''T'' \<notin> set (dt_date dt)
         else dt_date dt = [] \<and> \<not> isspace (last (dt_time dt)))"

text \<open>The four names that \<open>handleSpecialProperty\<close> knows.\<close>

definition isSpecialName :: "string \<Rightarrow> bool" where
  "isSpecialName b \<longleftrightarrow>
     strcasecmp0 b ''VERSION'' \<or> strcasecmp0 b ''FN'' \<or> strcasecmp0 b ''BDAY''
     \<or> strcasecmp0 b ''ANNIVERSARY''"

definition wireSafe :: "Card \<Rightarrow> bool" where
  "wireSafe c \<longleftrightarrow>
     (case card_fn c of
        None \<Rightarrow> False
      | Some f \<Rightarrow> wireSafeProperty f \<and> strcasecmp0 (lineName (propertyLine f)) ''FN'')
     \<and> (case card_optionalProperties c of
           None \<Rightarrow> False
         | Some props \<Rightarrow>
             list_all (\<lambda>p. wireSafeProperty p \<and> \<not> isSpecialName (lineName (propertyLine p))) props)
     \<and> (case card_birthday c of None \<Rightarrow> True | Some dt \<Rightarrow> wireSafeDate ''BDAY'' dt)
     \<and> (case card_anniversary c of None \<Rightarrow> True | Some dt \<Rightarrow> wireSafeDate ''ANNIVERSARY'' dt)"

subsection \<open>Trimming and searching\<close>

lemma trimWhitespace_id:
  assumes "s \<noteq> []" and "\<not> isspace (hd s)" and "\<not> isspace (last s)"
  shows "trimWhitespace s = s"
proof -
  obtain c cs where s: "s = c # cs"
    using assms(1) by (cases s) auto
  show ?thesis
  proof (cases "cs = []")
    case True
    with s assms show ?thesis by (simp add: trimWhitespace_def)
  next
    case False
    then have "hd (rev cs) = last cs" and "last s = last cs" and "rev cs \<noteq> []"
      using s by (simp_all add: hd_rev)
    then obtain r rs where r: "rev cs = r # rs" and rl: "r = last cs"
      by (cases "rev cs") auto
    have nr: "\<not> isspace r"
      using assms(3) \<open>last s = last cs\<close> rl by simp
    have "dropWhile isspace (rev cs) = rev cs"
      unfolding r using nr by simp
    then show ?thesis
      using s assms(2) by (simp add: trimWhitespace_def)
  qed
qed

lemma trimWhitespace_Nil [simp]: "trimWhitespace [] = []"
  by (simp add: trimWhitespace_def)

lemma trimWhitespace_trimmed: "trimmed s \<Longrightarrow> trimWhitespace s = s"
  unfolding trimmed_def using trimWhitespace_id [of s] trimWhitespace_Nil by metis





subsection \<open>What validation gives\<close>

lemma validateParams_nonempty:
  "validateParams ps \<Longrightarrow> q \<in> set ps \<Longrightarrow> param_name q \<noteq> [] \<and> param_value q \<noteq> []"
  by (induction ps) (auto split: if_splits)

lemma validateProperty_OK:
  assumes "validateProperty p b = OK"
  shows "isValidPropertyName (prop_name p)" and "validateParams (prop_parameters p)"
    and "prop_values p \<noteq> []"
  using assms by (auto simp: validateProperty_def split: if_splits)

lemma validNames_shape:
  "list_all (\<lambda>n. n \<noteq> [] \<and> \<not> isspace (hd n) \<and> \<not> isspace (last n)
      \<and> CHR '':'' \<notin> set n \<and> CHR '';'' \<notin> set n \<and> CHR ''.'' \<notin> set n
      \<and> map tolower n \<noteq> ''end'') validNames"
  by code_simp

lemma validName_shape:
  assumes "isValidPropertyName n"
  shows "n \<noteq> []" and "\<not> isspace (hd n)" and "\<not> isspace (last n)"
    and "CHR '':'' \<notin> set n" and "CHR '';'' \<notin> set n" and "CHR ''.'' \<notin> set n"
    and "map tolower n \<noteq> ''end''"
  using bspec [OF validNames_shape [unfolded list_all_iff] assms [unfolded isValidPropertyName_def]]
  by simp_all

subsection \<open>Parameters\<close>

text \<open>What the parser needs of a parameter and of the text written for it.\<close>

definition readableParameter :: "Parameter \<Rightarrow> bool" where
  "readableParameter q \<longleftrightarrow>
     param_name q \<noteq> [] \<and> param_value q \<noteq> []
     \<and> trimWhitespace (param_name q) = param_name q
     \<and> trimWhitespace (param_value q) = param_value q
     \<and> CHR ''='' \<notin> set (param_name q) \<and> CHR '';'' \<notin> set (param_name q)
     \<and> CHR '';'' \<notin> set (param_value q)
     \<and> \<not> isspace (hd (param_value q)) \<and> \<not> isspace (last (param_value q))
     \<and> paramText q = CHR '';'' # param_name q @ CHR ''='' # param_value q"

lemma wireSafe_readable:
  assumes "wireSafeParameter g q" and "param_name q \<noteq> []" and "param_value q \<noteq> []"
  shows "readableParameter q"
proof -
  from assms(1) have t: "trimmed (param_name q)" "trimmed (param_value q)"
      and n: "CHR ''='' \<notin> set (param_name q)" "CHR '';'' \<notin> set (param_name q)"
      and v: "CHR '';'' \<notin> set (param_value q)"
      and quote: "CHR '','' \<in> set (param_value q) \<longrightarrow> CHR 0x22 \<in> set (param_value q)"
    unfolding wireSafeParameter_def list_all_iff by blast+
  have "\<not> isspace (hd (param_value q))" and "\<not> isspace (last (param_value q))"
    using t(2) assms(3) by (simp_all add: trimmed_def)
  moreover have "paramText q = CHR '';'' # param_name q @ CHR ''='' # param_value q"
    using v quote by (auto simp: paramText_def needsQuotes_def strchr_None_iff)
  ultimately show ?thesis
    using assms(2,3) t n v by (simp add: readableParameter_def trimWhitespace_trimmed)
qed

lemma readable_parameters:
  assumes "validateParams ps" and "list_all (wireSafeParameter g) ps"
  shows "list_all readableParameter ps"
  unfolding list_all_iff
proof
  fix q assume q: "q \<in> set ps"
  with assms(2) have "wireSafeParameter g q"
    by (simp add: list_all_iff)
  with validateParams_nonempty [OF assms(1) q] show "readableParameter q"
    by (simp add: wireSafe_readable)
qed

lemma paramsText_Cons:
  "readableParameter q \<Longrightarrow>
   concat (map paramText (q # qs))
     = CHR '';'' # param_name q @ CHR ''='' # param_value q @ concat (map paramText qs)"
  by (simp add: readableParameter_def)

lemma validateParameters_loop_step:
  assumes "strchr s (CHR ''='') = Some e"
    and "dropWhile isspace (drop (Suc e) s) = c # cs" and "c \<noteq> CHR '';''"
  shows "strchr s (CHR '';'') = None \<Longrightarrow> validateParameters_loop s"
    and "strchr s (CHR '';'') = Some n \<Longrightarrow> e < n \<Longrightarrow>
           validateParameters_loop s = validateParameters_loop (drop (Suc n) s)"
  using assms by (subst validateParameters_loop.simps, simp)+

lemma readable_value:
  assumes "readableParameter q"
  obtains c cs where "param_value q = c # cs" and "\<not> isspace c" and "c \<noteq> CHR '';''"
  using assms by (cases "param_value q") (auto simp: readableParameter_def)

lemma validateParameters_loop_readable:
  assumes "readableParameter q" and "list_all readableParameter ps"
  shows "validateParameters_loop (param_name q @ CHR ''='' # param_value q @ concat (map paramText ps))"
  using assms
proof (induction ps arbitrary: q)
  case Nil
  define pn where "pn = param_name q"
  define pv where "pv = param_value q"
  obtain c cs where pv: "pv = c # cs" "\<not> isspace c" "c \<noteq> CHR '';''"
    unfolding pv_def using Nil.prems(1) by (rule readable_value)
  have q: "CHR ''='' \<notin> set pn" "CHR '';'' \<notin> set pn" "CHR '';'' \<notin> set pv"
    using Nil.prems(1) by (simp_all add: readableParameter_def pn_def pv_def)
  define s where "s = pn @ CHR ''='' # pv"
  have e: "strchr s (CHR ''='') = Some (length pn)"
    unfolding s_def using q(1) by (rule strchr_append_first)
  have n: "strchr s (CHR '';'') = None"
    unfolding s_def using q(2,3) by (simp add: strchr_None_iff)
  have d: "dropWhile isspace (drop (Suc (length pn)) s) = c # cs"
    unfolding s_def using pv by simp
  have "validateParameters_loop s"
    using e d pv(3) n by (rule validateParameters_loop_step(1))
  then show ?case
    by (simp add: s_def pn_def pv_def)
next
  case (Cons r rs)
  define pn where "pn = param_name q"
  define pv where "pv = param_value q"
  define nxt where "nxt = param_name r @ CHR ''='' # param_value r @ concat (map paramText rs)"
  define s where "s = (pn @ CHR ''='' # pv) @ CHR '';'' # nxt"
  from Cons.prems(2) have r: "readableParameter r" and rs: "list_all readableParameter rs"
    by simp_all
  obtain c cs where pv: "pv = c # cs" "\<not> isspace c" "c \<noteq> CHR '';''"
    unfolding pv_def using Cons.prems(1) by (rule readable_value)
  have q: "CHR ''='' \<notin> set pn" "CHR '';'' \<notin> set pn" "CHR '';'' \<notin> set pv"
    using Cons.prems(1) by (simp_all add: readableParameter_def pn_def pv_def)
  have e: "strchr s (CHR ''='') = Some (length pn)"
    unfolding s_def using strchr_append_first [OF q(1), of "pv @ CHR '';'' # nxt"] by simp
  have "CHR '';'' \<notin> set (pn @ CHR ''='' # pv)"
    using q(2,3) by simp
  then have n: "strchr s (CHR '';'') = Some (length (pn @ CHR ''='' # pv))"
    unfolding s_def by (rule strchr_append_first)
  have d: "dropWhile isspace (drop (Suc (length pn)) s) = c # (cs @ CHR '';'' # nxt)"
    unfolding s_def using pv by simp
  have dr: "drop (Suc (length (pn @ CHR ''='' # pv))) s = nxt"
    unfolding s_def by simp
  have "validateParameters_loop nxt"
    unfolding nxt_def using r rs by (rule Cons.IH)
  then have "validateParameters_loop s"
    using validateParameters_loop_step(2) [OF e d pv(3) n] dr by simp
  moreover have "s = param_name q @ CHR ''='' # param_value q @ concat (map paramText (r # rs))"
    unfolding s_def nxt_def pn_def pv_def using paramsText_Cons [OF r, of rs] by simp
  ultimately show ?case
    by simp
qed

lemma validateParameters_readable:
  assumes "CHR '';'' \<notin> set pre" and "list_all readableParameter ps"
  shows "validateParameters (pre @ concat (map paramText ps))"
proof (cases ps)
  case Nil
  have "strchr pre (CHR '';'') = None"
    using assms(1) by (simp add: strchr_None_iff)
  with Nil show ?thesis
    by (simp add: validateParameters_def)
next
  case (Cons q qs)
  with assms(2) have q: "readableParameter q" and qs: "list_all readableParameter qs"
    by simp_all
  define nxt where "nxt = param_name q @ CHR ''='' # param_value q @ concat (map paramText qs)"
  have t: "concat (map paramText ps) = CHR '';'' # nxt"
    unfolding nxt_def Cons using q by (rule paramsText_Cons)
  have n: "strchr (pre @ CHR '';'' # nxt) (CHR '';'') = Some (length pre)"
    using assms(1) by (rule strchr_append_first)
  have "validateParameters_loop nxt"
    unfolding nxt_def using q qs by (rule validateParameters_loop_readable)
  then show ?thesis
    unfolding t validateParameters_def n by simp
qed








subsection \<open>Values\<close>



subsection \<open>A property line read back\<close>

























subsection \<open>A date line read back\<close>
















subsection \<open>Reading the lines of a written card\<close>













text \<open>For a group without semicolon the check of the parameters needs no assumption.\<close>

lemma wireSafeGroup_plain:
  assumes "validateProperty p b = OK" and "CHR '';'' \<notin> set (prop_group p)"
    and "list_all (wireSafeParameter (prop_group p \<noteq> [])) (prop_parameters p)"
  shows "validateParameters (namePart p)"
proof -
  let ?pre = "(if prop_group p = [] then [] else prop_group p @ ''.'') @ prop_name p"
  have "CHR '';'' \<notin> set ?pre"
    using assms(2) validName_shape(5) [OF validateProperty_OK(1) [OF assms(1)]] by simp
  from validateParameters_readable [OF this
      readable_parameters [OF validateProperty_OK(2) [OF assms(1)] assms(3)]]
  show ?thesis
    by (simp add: namePart_def)
qed





subsection \<open>The conditions at work\<close>

text \<open>The round trip as a test: write the card, read the file, compare.\<close>

definition survives :: "Card \<Rightarrow> bool" where
  "survives c \<longleftrightarrow>
     (case writeCard (Some ''a.vcf'') (Some c) True of
        (err, None) \<Rightarrow> False
      | (err, Some content) \<Rightarrow>
          createCard (Some ''a.vcf'') [''a.vcf'' \<mapsto> content] = (OK, Some c))"

definition withOptional :: "Property \<Rightarrow> Card" where
  "withOptional p = \<lparr>card_fn = Some fnJohn, card_optionalProperties = Some [p],
                     card_birthday = None, card_anniversary = None\<rparr>"

definition withDates :: "DateTime \<Rightarrow> Card" where
  "withDates dt = \<lparr>card_fn = Some fnJohn, card_optionalProperties = Some [],
                   card_birthday = Some dt, card_anniversary = Some dt\<rparr>"

definition telWith :: "string \<Rightarrow> Parameter list \<Rightarrow> string list \<Rightarrow> Property" where
  "telWith grp params vals =
     \<lparr>prop_name = ''TEL'', prop_group = grp, prop_parameters = params, prop_values = vals\<rparr>"

definition adrWith :: "string list \<Rightarrow> Property" where
  "adrWith vals = \<lparr>prop_name = ''ADR'', prop_group = [], prop_parameters = [], prop_values = vals\<rparr>"

definition plainDate :: "string \<Rightarrow> string \<Rightarrow> DateTime" where
  "plainDate d t = \<lparr>dt_UTC = False, dt_isText = False, dt_date = d, dt_time = t, dt_text = []\<rparr>"

definition textDate :: "string \<Rightarrow> DateTime" where
  "textDate t = \<lparr>dt_UTC = False, dt_isText = True, dt_date = [], dt_time = [], dt_text = t\<rparr>"

text \<open>
  None of the conditions can be dropped. Each card below passes \<open>validateCard\<close>,
  breaks one of them, and does not survive the round trip.
\<close>

lemma wireSafe_conditions_needed:
  "list_all (\<lambda>c. validateCard (Some c) = OK \<and> \<not> wireSafe c \<and> \<not> survives c)
     [withOptional (telWith [] [] [[CHR ''5'', LF, CHR ''6'']]),
      withOptional (telWith [] [] [[CHR ''5'', NUL, CHR ''6'']]),
      \<lparr>card_fn = Some (telWith [] [] [''5'']), card_optionalProperties = Some [],
        card_birthday = None, card_anniversary = None\<rparr>,
      withOptional fnJohn,
      withOptional (telWith ''FN;a=b'' [] [''5'']),
      withOptional (telWith ''version;a=b'' [] [''5'']),
      withOptional (telWith '' g'' [] [''5'']),
      withOptional (telWith ''a:b'' [] [''5'']),
      withOptional (telWith ''a.b'' [] [''5'']),
      withOptional (telWith ''a;b'' [] [''5'']),
      withOptional (telWith [] [\<lparr>param_name = '' a'', param_value = ''x''\<rparr>] [''5'']),
      withOptional (telWith [] [\<lparr>param_name = ''a'', param_value = ''x ''\<rparr>] [''5'']),
      withOptional (telWith [] [\<lparr>param_name = ''a:b'', param_value = ''x''\<rparr>] [''5'']),
      withOptional (telWith [] [\<lparr>param_name = ''a'', param_value = ''x;y''\<rparr>] [''5'']),
      withOptional (telWith [] [\<lparr>param_name = ''a=b'', param_value = ''x''\<rparr>] [''5'']),
      withOptional (telWith [] [\<lparr>param_name = ''a'', param_value = ''x,y''\<rparr>] [''5'']),
      withOptional (telWith [] [\<lparr>param_name = ''a'', param_value = ''x.y''\<rparr>] [''5'']),
      withOptional (telWith [] [] [''5'', ''6'']),
      withOptional (telWith [] [] [''5 '']),
      withOptional (telWith [] [] [[]]),
      withOptional (adrWith ['' a'', ''b'']),
      withOptional (adrWith [''a;b'', ''c'']),
      withDates (plainDate ''20090808'' [])\<lparr>card_birthday := Some ((plainDate ''20090808'' [])\<lparr>dt_UTC := True\<rparr>)\<rparr>,
      withDates (textDate ''circa 1990 ''),
      withDates (plainDate '' 2009080'' []),
      withDates (plainDate ''2009T808'' []),
      withDates (plainDate ''20090808'' ''143000''),
      withDates (plainDate [] ''14300 '')]"
  by code_simp

text \<open>
  And they exclude no more than needed: the cards below use what the conditions allow,
  whitespace and an equals sign inside a group or a parameter, a semicolon in a
  group, a dot in a parameter of a grouped property, a comma beside a double quote, a
  time that begins with a blank, an FN property whose line is named \<open>FN\<close> by its
  group. They pass \<open>validateCard\<close>, are safe on the wire, and survive.
\<close>

lemma wireSafe_conditions_met:
  "list_all (\<lambda>c. validateCard (Some c) = OK \<and> wireSafe c \<and> survives c)
     [withOptional (telWith ''a b'' [\<lparr>param_name = ''TYPE'', param_value = ''a=b c''\<rparr>] [''5'']),
      withOptional (telWith ''a;b=c'' [\<lparr>param_name = ''T.1'', param_value = ''x.y''\<rparr>] [''5'']),
      withOptional (telWith ''a= '' [\<lparr>param_name = ''T, Y'', param_value = [CHR ''a'', CHR '','', CHR 0x22]\<rparr>]
                      [''5 ; 6, 7'']),
      withOptional (adrWith [[], ''a b'', ''x: y'']),
      withDates (plainDate [] '' 14300''),
      withDates (textDate ''a:b;c T''),
      \<lparr>card_fn = Some (telWith ''fn;a=b'' [] [''5'']), card_optionalProperties = Some [],
        card_birthday = None, card_anniversary = None\<rparr>]"
  by code_simp

end
